theory Spec2Isabelle
  imports Main "HOL-Library.List_Lexorder"
begin

section \<open>Python values used by the installer front end\<close>

text \<open>
  The development embeds \<^verbatim>\<open>invokeai/frontend/install/model_install.py\<close>:
  the method \<^verbatim>\<open>addModelsForm.marshall_arguments\<close>, which turns the state of
  the form's widgets into the lists of models to install and to remove, the method
  \<^verbatim>\<open>addModelsForm.while_waiting\<close>, which drains the pipe of the installing
  subprocess into the log window, and the function \<^verbatim>\<open>process_and_execute\<close>,
  the body of that subprocess.

  Python exceptions are values: a function that can raise returns \<open>error + 'a\<close>,
  with \<open>Inl\<close> for the exception.
\<close>

text \<open>
  A Python \<^verbatim>\<open>str\<close> whose characters matter is the list of its code points: the
  names of models and the contents of the free-text boxes, which \<^verbatim>\<open>split()\<close> cuts
  at white space, \<^verbatim>\<open>sorted\<close> orders and \<^verbatim>\<open>in\<close> searches. \<open>lit\<close> gives the
  code points of a literal. The strings that are only passed on or compared as a
  whole (log lines, directories, the precision) stay of type \<open>string\<close>.
\<close>

type_synonym pystr = "nat list"

definition lit :: "string \<Rightarrow> pystr" where
  "lit s = map of_char s"

datatype error = IndexError | KeyError | ValueError

text \<open>\<^verbatim>\<open>xs[i]\<close> for an index delivered by a widget (a cursor position, never negative).\<close>

definition getitem :: "'a list \<Rightarrow> nat \<Rightarrow> error + 'a" where
  "getitem xs i = (if i < length xs then Inr (xs ! i) else Inl IndexError)"

text \<open>
  A \<^verbatim>\<open>dict\<close> is an association list read by its first binding of a key;
  \<^verbatim>\<open>d[k]\<close> raises \<^verbatim>\<open>KeyError\<close> on a missing key, \<^verbatim>\<open>d.keys()\<close> lists every
  key once.
\<close>

type_synonym 'v dict = "(pystr \<times> 'v) list"

definition dict_getitem :: "'v dict \<Rightarrow> pystr \<Rightarrow> error + 'v" where
  "dict_getitem d k = (case map_of d k of None \<Rightarrow> Inl KeyError | Some v \<Rightarrow> Inr v)"

definition keys :: "'v dict \<Rightarrow> pystr list" where
  "keys d = rev (remdups (rev (map fst d)))"

text \<open>\<^verbatim>\<open>sorted(xs)\<close> on strings: ascending in the lexicographic order of the code points.\<close>

definition sorted_py :: "pystr list \<Rightarrow> pystr list" where
  "sorted_py xs = sort xs"

text \<open>\<^verbatim>\<open>xs.index(x)\<close>: the first position of \<open>x\<close>, \<^verbatim>\<open>ValueError\<close> when there is none.\<close>

fun list_index :: "'a list \<Rightarrow> 'a \<Rightarrow> error + nat" where
  "list_index [] x = Inl ValueError"
| "list_index (y # ys) x =
     (if y = x then Inr 0
      else (case list_index ys x of Inl e \<Rightarrow> Inl e | Inr i \<Rightarrow> Inr (Suc i)))"

text \<open>
  A list comprehension \<^verbatim>\<open>[elem(x) for x in xs if cond(x)]\<close> whose condition and
  element expression can raise: the elements are visited in order and the first
  exception ends the comprehension.
\<close>

fun comprehension ::
  "('a \<Rightarrow> error + bool) \<Rightarrow> ('a \<Rightarrow> error + 'b) \<Rightarrow> 'a list \<Rightarrow> error + 'b list" where
  "comprehension cond elem [] = Inr []"
| "comprehension cond elem (x # xs) =
     (case cond x of
        Inl e \<Rightarrow> Inl e
      | Inr False \<Rightarrow> comprehension cond elem xs
      | Inr True \<Rightarrow>
          (case elem x of
             Inl e \<Rightarrow> Inl e
           | Inr v \<Rightarrow>
               (case comprehension cond elem xs of
                  Inl e \<Rightarrow> Inl e
                | Inr vs \<Rightarrow> Inr (v # vs))))"

text \<open>
  \<^verbatim>\<open>s.split()\<close> with no argument: the maximal runs of characters that are not
  white space, in order; no empty strings. White space is what \<^verbatim>\<open>str.isspace\<close>
  accepts: the code points U+0009 to U+000D, U+001C to U+0020, U+0085, U+00A0,
  U+1680, U+2000 to U+200A, U+2028, U+2029, U+202F, U+205F and U+3000.
\<close>

definition isspace :: "nat \<Rightarrow> bool" where
  "isspace c \<longleftrightarrow>
     (0x09 \<le> c \<and> c \<le> 0x0D) \<or> (0x1C \<le> c \<and> c \<le> 0x20) \<or> c = 0x85 \<or> c = 0xA0 \<or>
     c = 0x1680 \<or> (0x2000 \<le> c \<and> c \<le> 0x200A) \<or> c = 0x2028 \<or> c = 0x2029 \<or>
     c = 0x202F \<or> c = 0x205F \<or> c = 0x3000"

fun split_from :: "pystr \<Rightarrow> pystr \<Rightarrow> pystr list" where
  "split_from w [] = (if w = [] then [] else [w])"
| "split_from w (c # cs) =
     (if isspace c then (if w = [] then split_from [] cs else w # split_from [] cs)
      else split_from (w @ [c]) cs)"

definition str_split :: "pystr \<Rightarrow> pystr list" where
  "str_split s = split_from [] s"

section \<open>The form and the user's selections\<close>

text \<open>
  A multi-select widget: \<open>ms_values\<close> is its attribute \<^verbatim>\<open>values\<close> (the candidates in
  display order), \<open>ms_value\<close> its attribute \<^verbatim>\<open>value\<close> (the indices the user has checked).
\<close>

record MultiSelect =
  ms_values :: "pystr list"
  ms_value :: "nat list"

text \<open>
  The widget dictionaries built by \<^verbatim>\<open>add_model_widgets\<close>, \<^verbatim>\<open>add_diffusers_widgets\<close>
  and \<^verbatim>\<open>add_starter_diffusers\<close>. The key \<^verbatim>\<open>models_selected\<close> is absent
  (\<open>None\<close>) when the category has no candidate; \<^verbatim>\<open>download_ids\<close> is the free-text box.
  Of the starter multi-select only the checked indices are kept (\<open>starter_value\<close>):
  its \<^verbatim>\<open>values\<close> are display labels, which nothing reads back.
\<close>

record model_widgets =
  models_selected :: "MultiSelect option"
  download_ids :: pystr

record diffusers_widgets = model_widgets +
  purge_deleted :: bool
  autoload_directory :: "string option"
  autoscan_checkbox :: bool

record starter_widgets =
  starter_value :: "nat list"
  starter_purge_deleted :: bool

record addModelsForm =
  starter_model_list :: "pystr list"
  existing_models :: "pystr list"
  installed_diffusers_models :: "bool dict"
  installed_cn_models :: "bool dict"
  installed_lora_models :: "bool dict"
  installed_ti_models :: "bool dict"
  starter_diffusers_models :: starter_widgets
  diffusers_models :: diffusers_widgets
  controlnet_models :: model_widgets
  lora_models :: model_widgets
  ti_models :: model_widgets

text \<open>
  \<^verbatim>\<open>UserSelections\<close>, the object \<^verbatim>\<open>parentApp.user_selections\<close> that
  \<^verbatim>\<open>marshall_arguments\<close> updates in place. The application creates it once, so it
  carries its fields from one call to the next.
\<close>

record UserSelections =
  install_models :: "pystr list"
  remove_models :: "pystr list"
  purge_deleted_models :: bool
  install_cn_models :: "pystr list"
  remove_cn_models :: "pystr list"
  install_lora_models :: "pystr list"
  remove_lora_models :: "pystr list"
  install_ti_models :: "pystr list"
  remove_ti_models :: "pystr list"
  scan_directory :: "string option"
  autoscan_on_startup :: bool
  import_model_paths :: "pystr list"

section \<open>Building the widgets\<close>

text \<open>
  \<^verbatim>\<open>add_model_widgets\<close>: the candidates are the sorted keys of
  \<^verbatim>\<open>predefined_models\<close>, and the multi-select exists only when there is at least
  one; its initial checks are the candidates whose entry is true. The free-text
  box starts empty. (The labels and the layout arithmetic are not modelled.)
\<close>

definition initial_checks :: "pystr list \<Rightarrow> bool dict \<Rightarrow> error + nat list" where
  "initial_checks model_list predefined_models =
     comprehension (\<lambda>x. dict_getitem predefined_models x) (\<lambda>x. list_index model_list x)
       model_list"

definition add_model_widgets :: "bool dict \<Rightarrow> error + model_widgets" where
  "add_model_widgets predefined_models =
     (let model_list = sorted_py (keys predefined_models) in
      if length model_list > 0 then
        (case initial_checks model_list predefined_models of
           Inl e \<Rightarrow> Inl e
         | Inr checks \<Rightarrow>
             Inr \<lparr>models_selected = Some \<lparr>ms_values = model_list, ms_value = checks\<rparr>,
                  download_ids = []\<rparr>)
      else Inr \<lparr>models_selected = None, download_ids = []\<rparr>)"

text \<open>
  \<^verbatim>\<open>add_diffusers_widgets\<close>: the same widgets, then the purge checkbox, the
  directory to scan and the scan-at-startup checkbox, all unset.
\<close>

definition add_diffusers_widgets :: "bool dict \<Rightarrow> error + diffusers_widgets" where
  "add_diffusers_widgets predefined_models =
     (case add_model_widgets predefined_models of
        Inl e \<Rightarrow> Inl e
      | Inr w \<Rightarrow>
          Inr \<lparr>models_selected = models_selected w, download_ids = download_ids w,
               purge_deleted = False, autoload_directory = None,
               autoscan_checkbox = False\<rparr>)"

text \<open>
  \<^verbatim>\<open>list_additional_diffusers_models\<close>: the installed models of format
  \<^verbatim>\<open>diffusers\<close> that are not on the starter list, each mapped to \<^verbatim>\<open>True\<close>.
  \<open>model_info\<close> is the manager's \<^verbatim>\<open>list_models()\<close>, reduced to the format of
  each model; \<open>starters\<close> are the keys of the starter catalogue.
\<close>

definition list_additional_diffusers_models ::
  "string dict \<Rightarrow> pystr list \<Rightarrow> bool dict" where
  "list_additional_diffusers_models model_info starters =
     map (\<lambda>x. (x, True))
       (filter (\<lambda>x. map_of model_info x = Some ''diffusers'' \<and> x \<notin> set starters)
          (keys model_info))"

text \<open>
  \<^verbatim>\<open>add_starter_diffusers\<close>: one checkbox per starter model, checked when the
  model is in the configuration file, or recommended while the configuration
  file lists no model at all.
\<close>

definition add_starter_diffusers ::
  "pystr list \<Rightarrow> pystr list \<Rightarrow> pystr list \<Rightarrow> error + starter_widgets" where
  "add_starter_diffusers starter_list recommended_models existing =
     (let show_recommended = (existing = []) in
      case comprehension
             (\<lambda>x. Inr ((show_recommended \<and> x \<in> set recommended_models) \<or> x \<in> set existing))
             (\<lambda>x. list_index starter_list x) starter_list of
        Inl e \<Rightarrow> Inl e
      | Inr checks \<Rightarrow>
          Inr \<lparr>starter_value = checks, starter_purge_deleted = False\<rparr>)"

text \<open>
  What \<^verbatim>\<open>create\<close> reads from outside the form: the starter catalogue (each
  name with its \<^verbatim>\<open>recommended\<close> flag), the names in the configuration file, the
  manager's list of models, and the manager's three tables of ControlNet, LoRA and
  textual-inversion models.
\<close>

record environment =
  env_starter_models :: "bool dict"
  env_existing_models :: "pystr list"
  env_model_info :: "string dict"
  env_cn_models :: "bool dict"
  env_lora_models :: "bool dict"
  env_ti_models :: "bool dict"

text \<open>\<^verbatim>\<open>create\<close>, as far as it sets the fields that \<^verbatim>\<open>marshall_arguments\<close> reads.\<close>

definition create :: "environment \<Rightarrow> error + addModelsForm" where
  "create env =
     (let starters = keys (env_starter_models env);
          installed_diffusers = list_additional_diffusers_models (env_model_info env) starters;
          recommended =
            filter (\<lambda>x. map_of (env_starter_models env) x = Some True) starters
      in
      case add_starter_diffusers starters recommended (env_existing_models env) of
        Inl e \<Rightarrow> Inl e
      | Inr sw \<Rightarrow>
      (case add_diffusers_widgets installed_diffusers of
        Inl e \<Rightarrow> Inl e
      | Inr dw \<Rightarrow>
      (case add_model_widgets (env_cn_models env) of
        Inl e \<Rightarrow> Inl e
      | Inr cw \<Rightarrow>
      (case add_model_widgets (env_lora_models env) of
        Inl e \<Rightarrow> Inl e
      | Inr lw \<Rightarrow>
      (case add_model_widgets (env_ti_models env) of
        Inl e \<Rightarrow> Inl e
      | Inr tw \<Rightarrow>
          Inr \<lparr>starter_model_list = starters,
               existing_models = env_existing_models env,
               installed_diffusers_models = installed_diffusers,
               installed_cn_models = env_cn_models env,
               installed_lora_models = env_lora_models env,
               installed_ti_models = env_ti_models env,
               starter_diffusers_models = sw,
               diffusers_models = dw,
               controlnet_models = cw,
               lora_models = lw,
               ti_models = tw\<rparr>)))))"

section \<open>Marshalling the selections\<close>

text \<open>
  The starter block of \<^verbatim>\<open>marshall_arguments\<close>. \<open>starter_models_dict\<close> is the
  dictionary \<^verbatim>\<open>starter_models\<close> of the checked names, as the list of its keys in
  insertion order.
\<close>

definition starter_models_dict :: "addModelsForm \<Rightarrow> error + pystr list" where
  "starter_models_dict f =
     (case comprehension (\<lambda>x. Inr True) (\<lambda>x. getitem (starter_model_list f) x)
             (starter_value (starter_diffusers_models f)) of
        Inl e \<Rightarrow> Inl e
      | Inr names \<Rightarrow> Inr (rev (remdups (rev names))))"

definition marshall_starter :: "addModelsForm \<Rightarrow> UserSelections \<Rightarrow> error + UserSelections" where
  "marshall_starter f selections =
     (case starter_models_dict f of
        Inl e \<Rightarrow> Inl e
      | Inr starter_models \<Rightarrow>
          Inr (selections
            \<lparr>purge_deleted_models :=
               starter_purge_deleted (starter_diffusers_models f) \<or>
               purge_deleted (diffusers_models f),
             install_models :=
               filter (\<lambda>x. x \<notin> set (existing_models f)) starter_models,
             remove_models :=
               filter (\<lambda>x. x \<in> set (existing_models f) \<and> x \<notin> set starter_models)
                 (starter_model_list f)\<rparr>))"

text \<open>
  The comprehension shared by the four blocks that remove what was unchecked:
  \<^verbatim>\<open>[x for x in w.values if installed[x] and w.values.index(x) not in w.value]\<close>.
\<close>

definition unchecked_installed :: "bool dict \<Rightarrow> MultiSelect \<Rightarrow> error + pystr list" where
  "unchecked_installed installed w =
     comprehension
       (\<lambda>x. case dict_getitem installed x of
               Inl e \<Rightarrow> Inl e
             | Inr False \<Rightarrow> Inr False
             | Inr True \<Rightarrow>
                 (case list_index (ms_values w) x of
                    Inl e \<Rightarrow> Inl e
                  | Inr i \<Rightarrow> Inr (i \<notin> set (ms_value w))))
       (\<lambda>x. Inr x) (ms_values w)"

text \<open>
  The comprehension shared by the three blocks that install what was checked:
  \<^verbatim>\<open>[w.values[x] for x in w.value if not installed[w.values[x]]]\<close>.
\<close>

definition checked_not_installed :: "bool dict \<Rightarrow> MultiSelect \<Rightarrow> error + pystr list" where
  "checked_not_installed installed w =
     comprehension
       (\<lambda>x. case getitem (ms_values w) x of
               Inl e \<Rightarrow> Inl e
             | Inr v \<Rightarrow>
                 (case dict_getitem installed v of
                    Inl e \<Rightarrow> Inl e
                  | Inr b \<Rightarrow> Inr (\<not> b)))
       (\<lambda>x. getitem (ms_values w) x) (ms_value w)"

text \<open>The block of the additional diffusers models.\<close>

definition marshall_diffusers :: "addModelsForm \<Rightarrow> UserSelections \<Rightarrow> error + UserSelections" where
  "marshall_diffusers f selections =
     (let selections1 =
            selections\<lparr>import_model_paths := str_split (download_ids (diffusers_models f))\<rparr>
      in case models_selected (diffusers_models f) of
           None \<Rightarrow> Inr selections1
         | Some diffusers_selected \<Rightarrow>
             (case unchecked_installed (installed_diffusers_models f) diffusers_selected of
                Inl e \<Rightarrow> Inl e
              | Inr unchecked \<Rightarrow>
                  Inr (selections1\<lparr>remove_models := remove_models selections1 @ unchecked\<rparr>)))"

text \<open>
  The ControlNet block: the two lists are assigned only when the multi-select
  exists; the free-text entries that contain a slash are appended to the install
  list, whatever it holds.
\<close>

definition marshall_cn :: "addModelsForm \<Rightarrow> UserSelections \<Rightarrow> error + UserSelections" where
  "marshall_cn f selections =
     (case (case models_selected (controlnet_models f) of
              None \<Rightarrow> Inr selections
            | Some cn_models_selected \<Rightarrow>
                (case checked_not_installed (installed_cn_models f) cn_models_selected of
                   Inl e \<Rightarrow> Inl e
                 | Inr inst \<Rightarrow>
                     (case unchecked_installed (installed_cn_models f) cn_models_selected of
                        Inl e \<Rightarrow> Inl e
                      | Inr rem \<Rightarrow>
                          Inr (selections\<lparr>install_cn_models := inst,
                                          remove_cn_models := rem\<rparr>)))) of
        Inl e \<Rightarrow> Inl e
      | Inr selections1 \<Rightarrow>
          (let additional_cns = str_split (download_ids (controlnet_models f)) in
           if additional_cns \<noteq> [] then
             (let valid_cns = filter (\<lambda>x. of_char CHR ''/'' \<in> set x) additional_cns in
              Inr (selections1\<lparr>install_cn_models :=
                                 install_cn_models selections1 @ valid_cns\<rparr>))
           else Inr selections1))"

text \<open>The LoRA block: as for ControlNet, but every free-text entry is appended.\<close>

definition marshall_lora :: "addModelsForm \<Rightarrow> UserSelections \<Rightarrow> error + UserSelections" where
  "marshall_lora f selections =
     (case (case models_selected (lora_models f) of
              None \<Rightarrow> Inr selections
            | Some loras_selected \<Rightarrow>
                (case checked_not_installed (installed_lora_models f) loras_selected of
                   Inl e \<Rightarrow> Inl e
                 | Inr inst \<Rightarrow>
                     (case unchecked_installed (installed_lora_models f) loras_selected of
                        Inl e \<Rightarrow> Inl e
                      | Inr rem \<Rightarrow>
                          Inr (selections\<lparr>install_lora_models := inst,
                                          remove_lora_models := rem\<rparr>)))) of
        Inl e \<Rightarrow> Inl e
      | Inr selections1 \<Rightarrow>
          (let additional_loras = str_split (download_ids (lora_models f)) in
           if additional_loras \<noteq> [] then
             Inr (selections1\<lparr>install_lora_models :=
                                install_lora_models selections1 @ additional_loras\<rparr>)
           else Inr selections1))"

text \<open>The textual-inversion block, the same as the LoRA block.\<close>

definition marshall_ti :: "addModelsForm \<Rightarrow> UserSelections \<Rightarrow> error + UserSelections" where
  "marshall_ti f selections =
     (case (case models_selected (ti_models f) of
              None \<Rightarrow> Inr selections
            | Some tis_selected \<Rightarrow>
                (case checked_not_installed (installed_ti_models f) tis_selected of
                   Inl e \<Rightarrow> Inl e
                 | Inr inst \<Rightarrow>
                     (case unchecked_installed (installed_ti_models f) tis_selected of
                        Inl e \<Rightarrow> Inl e
                      | Inr rem \<Rightarrow>
                          Inr (selections\<lparr>install_ti_models := inst,
                                          remove_ti_models := rem\<rparr>)))) of
        Inl e \<Rightarrow> Inl e
      | Inr selections1 \<Rightarrow>
          (let additional_tis = str_split (download_ids (ti_models f)) in
           if additional_tis \<noteq> [] then
             Inr (selections1\<lparr>install_ti_models :=
                                install_ti_models selections1 @ additional_tis\<rparr>)
           else Inr selections1))"

text \<open>
  \<^verbatim>\<open>marshall_arguments\<close>: the five blocks in the order of the source, then the
  directory to scan and the scan-at-startup flag. An exception leaves the method at
  the block that raised it.
\<close>

definition marshall_arguments :: "addModelsForm \<Rightarrow> UserSelections \<Rightarrow> error + UserSelections" where
  "marshall_arguments f selections =
     (case marshall_starter f selections of Inl e \<Rightarrow> Inl e | Inr s1 \<Rightarrow>
     (case marshall_diffusers f s1 of Inl e \<Rightarrow> Inl e | Inr s2 \<Rightarrow>
     (case marshall_cn f s2 of Inl e \<Rightarrow> Inl e | Inr s3 \<Rightarrow>
     (case marshall_lora f s3 of Inl e \<Rightarrow> Inl e | Inr s4 \<Rightarrow>
     (case marshall_ti f s4 of Inl e \<Rightarrow> Inl e | Inr s5 \<Rightarrow>
        Inr (s5\<lparr>scan_directory := autoload_directory (diffusers_models f),
                autoscan_on_startup := autoscan_checkbox (diffusers_models f)\<rparr>))))))"

section \<open>Well-formed forms and selections\<close>

text \<open>
  What \<^verbatim>\<open>create\<close> establishes and the user cannot change: a multi-select that
  exists lists the sorted keys of its table, and no additional diffusers model
  bears the name of a starter model.
\<close>

definition widget_inv :: "bool dict \<Rightarrow> MultiSelect option \<Rightarrow> bool" where
  "widget_inv d w = (case w of None \<Rightarrow> True | Some ms \<Rightarrow> ms_values ms = sorted_py (keys d))"

definition form_inv :: "addModelsForm \<Rightarrow> bool" where
  "form_inv f \<longleftrightarrow>
     widget_inv (installed_diffusers_models f) (models_selected (diffusers_models f)) \<and>
     widget_inv (installed_cn_models f) (models_selected (controlnet_models f)) \<and>
     widget_inv (installed_lora_models f) (models_selected (lora_models f)) \<and>
     widget_inv (installed_ti_models f) (models_selected (ti_models f)) \<and>
     set (keys (installed_diffusers_models f)) \<inter> set (starter_model_list f) = {}"

text \<open>The checked indices are positions of the candidate list.\<close>

definition valid_indices :: "MultiSelect option \<Rightarrow> bool" where
  "valid_indices w =
     (case w of None \<Rightarrow> True
      | Some ms \<Rightarrow> list_all (\<lambda>i. i < length (ms_values ms)) (ms_value ms))"

definition valid_selection :: "addModelsForm \<Rightarrow> bool" where
  "valid_selection f \<longleftrightarrow>
     list_all (\<lambda>i. i < length (starter_model_list f))
       (starter_value (starter_diffusers_models f)) \<and>
     valid_indices (models_selected (diffusers_models f)) \<and>
     valid_indices (models_selected (controlnet_models f)) \<and>
     valid_indices (models_selected (lora_models f)) \<and>
     valid_indices (models_selected (ti_models f))"

text \<open>A starter model is checked when one of the checked indices is its position.\<close>

definition starter_checked :: "addModelsForm \<Rightarrow> pystr \<Rightarrow> bool" where
  "starter_checked f x \<longleftrightarrow>
     list_ex (\<lambda>i. getitem (starter_model_list f) i = Inr x)
       (starter_value (starter_diffusers_models f))"

text \<open>
  The checks of a multi-select are exactly the candidates whose table entry is
  true: the state in which \<^verbatim>\<open>add_model_widgets\<close> leaves it.
\<close>

definition selects_installed :: "bool dict \<Rightarrow> MultiSelect option \<Rightarrow> bool" where
  "selects_installed d w =
     (case w of None \<Rightarrow> True
      | Some ms \<Rightarrow>
          list_all (\<lambda>i. i < length (ms_values ms) \<and> map_of d (ms_values ms ! i) = Some True)
            (ms_value ms) \<and>
          list_all (\<lambda>i. map_of d (ms_values ms ! i) = Some True \<longrightarrow> i \<in> set (ms_value ms))
            [0..<length (ms_values ms)])"

text \<open>
  The selection is unchanged: in every category the checks are exactly the
  installed models, and every free-text box is empty.
\<close>

definition unchanged_selection :: "addModelsForm \<Rightarrow> bool" where
  "unchanged_selection f \<longleftrightarrow>
     list_all (\<lambda>x. starter_checked f x \<longleftrightarrow> x \<in> set (existing_models f))
       (starter_model_list f) \<and>
     list_all (\<lambda>i. i < length (starter_model_list f))
       (starter_value (starter_diffusers_models f)) \<and>
     selects_installed (installed_diffusers_models f) (models_selected (diffusers_models f)) \<and>
     selects_installed (installed_cn_models f) (models_selected (controlnet_models f)) \<and>
     selects_installed (installed_lora_models f) (models_selected (lora_models f)) \<and>
     selects_installed (installed_ti_models f) (models_selected (ti_models f)) \<and>
     download_ids (diffusers_models f) = [] \<and>
     download_ids (controlnet_models f) = [] \<and>
     download_ids (lora_models f) = [] \<and>
     download_ids (ti_models f) = []"

text \<open>A selections object none of whose lists has an entry.\<close>

definition empty_selections :: UserSelections where
  "empty_selections =
     \<lparr>install_models = [], remove_models = [], purge_deleted_models = False,
      install_cn_models = [], remove_cn_models = [],
      install_lora_models = [], remove_lora_models = [],
      install_ti_models = [], remove_ti_models = [],
      scan_directory = None, autoscan_on_startup = False, import_model_paths = []\<rparr>"

section \<open>The pipe between the form and the installing subprocess\<close>

text \<open>
  The parent's end of the \<^verbatim>\<open>multiprocessing\<close> pipe. \<open>pending\<close> holds the messages
  the subprocess has sent and the parent has not yet received, oldest first: each
  \<^verbatim>\<open>send_bytes\<close> is one message, and the messages arrive in the order sent.
  \<open>peer_closed\<close> says that the subprocess's end is closed, by \<^verbatim>\<open>close()\<close> or by
  the end of the process.

  \<^verbatim>\<open>poll()\<close> answers without blocking whether the connection is ready. It
  rests on the library's \<^verbatim>\<open>wait\<close>, for which a connection is ready when there
  is data to be read from it or the other end has been closed.
  \<^verbatim>\<open>recv_bytes()\<close> takes the oldest message; with none left and the other end
  closed it raises \<^verbatim>\<open>EOFError\<close>; with none left and the other end open it
  blocks, which is the value \<open>None\<close>. A message is the string whose UTF-8
  encoding was sent: the subprocess encodes what it sends and the form decodes
  what it receives.
\<close>

record Connection =
  pending :: "string list"
  peer_closed :: bool

datatype read_error = EOFError | OSError

definition poll :: "Connection \<Rightarrow> bool" where
  "poll c \<longleftrightarrow> pending c \<noteq> [] \<or> peer_closed c"

definition recv_bytes :: "Connection \<Rightarrow> ((read_error + string) \<times> Connection) option" where
  "recv_bytes c =
     (case pending c of
        m # ms \<Rightarrow> Some (Inr m, c\<lparr>pending := ms\<rparr>)
      | [] \<Rightarrow> if peer_closed c then Some (Inl EOFError, c) else None)"

text \<open>\<^verbatim>\<open>send_bytes\<close> and \<^verbatim>\<open>close\<close> at the other end, as the parent's end sees them.\<close>

definition send_bytes :: "string \<Rightarrow> Connection \<Rightarrow> Connection" where
  "send_bytes m c = c\<lparr>pending := pending c @ [m]\<rparr>"

definition close_peer :: "Connection \<Rightarrow> Connection" where
  "close_peer c = c\<lparr>peer_closed := True\<rparr>"

section \<open>Waiting for the subprocess\<close>

text \<open>
  The part of the form that \<^verbatim>\<open>while_waiting\<close> reads and writes: the attribute
  \<^verbatim>\<open>subprocess_connection\<close> and the lines of the log window
  (\<^verbatim>\<open>monitor.entry_widget.values\<close>).
\<close>

record waiting_form =
  subprocess_connection :: "Connection option"
  monitor_values :: "string list"

text \<open>
  Modelled from the spec: the method \<^verbatim>\<open>buffer\<close> of the log window, whose class
  \<^verbatim>\<open>BufferBox\<close> is declared in \<^verbatim>\<open>widgets.py\<close>. The specification describes the
  log sink as append-only: \<^verbatim>\<open>append(lines)\<close> adds the lines to the end of the
  scrollback and \<^verbatim>\<open>bufferedLines()\<close> returns the whole scrollback.
\<close>

definition buffer :: "string list \<Rightarrow> string list \<Rightarrow> string list" where
  "buffer lines vals = vals @ lines"

text \<open>
  What one call of \<^verbatim>\<open>while_waiting\<close> shows the user, in order: \<open>Text lines\<close> for
  a chunk written to the log window as \<open>lines\<close>, \<open>Completed\<close> for the branch taken
  on the sentinel (the marker line and the rebuilt form).
\<close>

datatype LogEvent = Text "string list" | Completed

definition sentinel :: string where
  "sentinel = ''*done*''"

definition action_complete :: string where
  "action_complete = ''** Action Complete **''"

text \<open>\<^verbatim>\<open>data.strip('\n')\<close>: the string without its leading and trailing newlines.\<close>

definition strip_newlines :: "string \<Rightarrow> string" where
  "strip_newlines s =
     rev (dropWhile (\<lambda>c. c = CHR 0x0A) (rev (dropWhile (\<lambda>c. c = CHR 0x0A) s)))"

text \<open>
  The branch on the sentinel: the marker line goes to the log window, the form is
  built anew (with no connection and an empty log window), the saved lines become
  the lines of the new log window, and one empty line is added. The result is the
  new form, which is the one the application shows from then on.
\<close>

definition rebuild_form :: "waiting_form \<Rightarrow> waiting_form" where
  "rebuild_form self =
     (let saved_messages = buffer [action_complete] (monitor_values self);
          new_form = \<lparr>subprocess_connection = None, monitor_values = []\<rparr>;
          main_form = new_form\<lparr>monitor_values := saved_messages\<rparr>
      in main_form\<lparr>monitor_values := buffer [''''] (monitor_values main_form)\<rparr>)"

text \<open>
  The loop \<^verbatim>\<open>while c.poll()\<close>. \<open>c\<close> is the local variable, which keeps the
  connection when the attribute has been set to \<^verbatim>\<open>None\<close>; \<open>self\<close> is the form
  and \<open>evs\<close> the events so far. While the attribute holds the connection it is
  the same object as \<open>c\<close>, so it is updated with it. \<open>wrap width data\<close> stands for
  \<^verbatim>\<open>textwrap.wrap(data, width=width, subsequent_indent='   ')\<close>.
  The handler of \<^verbatim>\<open>(EOFError, OSError)\<close> is the branch \<open>Inl err\<close>: it clears the
  attribute and the loop goes on. The value of \<^verbatim>\<open>data.strip('\n')\<close> is computed
  and dropped. The loop need not end: the result \<open>None\<close> is a call that never
  returns.
\<close>

partial_function (option) poll_loop ::
  "(nat \<Rightarrow> string \<Rightarrow> string list) \<Rightarrow> nat \<Rightarrow> Connection \<Rightarrow> waiting_form \<Rightarrow> LogEvent list
     \<Rightarrow> (waiting_form \<times> LogEvent list) option" where
  "poll_loop wrap width c self evs =
     (if poll c then
        (case recv_bytes c of
           None \<Rightarrow> None
         | Some (Inr data, c') \<Rightarrow>
             (let self1 = self\<lparr>subprocess_connection :=
                                 map_option (\<lambda>_. c') (subprocess_connection self)\<rparr>;
                  stripped = strip_newlines data
              in if data = sentinel then
                   Some (rebuild_form (self1\<lparr>subprocess_connection := None\<rparr>),
                         evs @ [Completed])
                 else
                   poll_loop wrap width c'
                     (self1\<lparr>monitor_values := buffer (wrap width data) (monitor_values self1)\<rparr>)
                     (evs @ [Text (wrap width data)]))
         | Some (Inl err, c') \<Rightarrow>
             poll_loop wrap width c' (self\<lparr>subprocess_connection := None\<rparr>) evs)
      else Some (self, evs))"

text \<open>\<^verbatim>\<open>while_waiting\<close>: nothing happens without a connection.\<close>

definition while_waiting ::
  "(nat \<Rightarrow> string \<Rightarrow> string list) \<Rightarrow> nat \<Rightarrow> waiting_form
     \<Rightarrow> (waiting_form \<times> LogEvent list) option" where
  "while_waiting wrap width self =
     (case subprocess_connection self of
        None \<Rightarrow> Some (self, [])
      | Some c \<Rightarrow> poll_loop wrap width c self [])"

text \<open>
  The part of \<^verbatim>\<open>on_execute\<close> that concerns the log window and the pipe: the line
  \<^verbatim>\<open>Processing...\<close>, then a new pipe whose other end the subprocess holds.
\<close>

definition on_execute :: "waiting_form \<Rightarrow> waiting_form" where
  "on_execute self =
     self\<lparr>monitor_values := buffer [''Processing...''] (monitor_values self),
          subprocess_connection := Some \<lparr>pending = [], peer_closed = False\<rparr>\<rparr>"

text \<open>
  The form and the subprocess run side by side. A run is a list of steps: the
  subprocess sends a message, the subprocess's end is closed, or the form's timer
  calls \<^verbatim>\<open>while_waiting\<close>. What the subprocess does reaches the form only through
  the connection the form still holds. The events of the calls are collected in order.
\<close>

datatype step = Send string | CloseEnd | Tick

fun run ::
  "(nat \<Rightarrow> string \<Rightarrow> string list) \<Rightarrow> nat \<Rightarrow> step list \<Rightarrow> waiting_form \<times> LogEvent list
     \<Rightarrow> (waiting_form \<times> LogEvent list) option" where
  "run wrap width [] (self, evs) = Some (self, evs)"
| "run wrap width (Send m # steps) (self, evs) =
     run wrap width steps
       (self\<lparr>subprocess_connection := map_option (send_bytes m) (subprocess_connection self)\<rparr>,
        evs)"
| "run wrap width (CloseEnd # steps) (self, evs) =
     run wrap width steps
       (self\<lparr>subprocess_connection := map_option close_peer (subprocess_connection self)\<rparr>,
        evs)"
| "run wrap width (Tick # steps) (self, evs) =
     (case while_waiting wrap width self of
        None \<Rightarrow> None
      | Some (self', new) \<Rightarrow> run wrap width steps (self', evs @ new))"

section \<open>The subprocess\<close>

text \<open>
  \<^verbatim>\<open>ModelInstallList\<close> and the keyword arguments of \<^verbatim>\<open>install_requested_models\<close>
  as \<^verbatim>\<open>process_and_execute\<close> passes them.
\<close>

record ModelInstallList =
  mil_install_models :: "pystr list"
  mil_remove_models :: "pystr list"

record install_request =
  req_diffusers :: ModelInstallList
  req_controlnet :: ModelInstallList
  req_lora :: ModelInstallList
  req_ti :: ModelInstallList
  req_scan_directory :: "string option"
  req_external_models :: "pystr list"
  req_scan_at_startup :: bool
  req_precision :: string
  req_purge_deleted :: bool
  req_config_file_path :: "string option"

text \<open>The options of the command line that \<^verbatim>\<open>process_and_execute\<close> reads.\<close>

record options =
  full_precision :: bool
  config_file :: "string option"

text \<open>
  \<open>chosen_precision\<close> stands for
  \<^verbatim>\<open>choose_precision(torch.device(choose_torch_device()))\<close>. An empty directory
  name counts as none, as \<^verbatim>\<open>if directory_to_scan\<close> and \<^verbatim>\<open>if opt.config_file\<close> do.
\<close>

definition truthy_path :: "string option \<Rightarrow> string option" where
  "truthy_path p = (case p of None \<Rightarrow> None | Some s \<Rightarrow> if s = [] then None else Some s)"

definition build_request :: "string \<Rightarrow> options \<Rightarrow> UserSelections \<Rightarrow> install_request" where
  "build_request chosen_precision opt selections =
     \<lparr>req_diffusers = \<lparr>mil_install_models = install_models selections,
                       mil_remove_models = remove_models selections\<rparr>,
      req_controlnet = \<lparr>mil_install_models = install_cn_models selections,
                        mil_remove_models = remove_cn_models selections\<rparr>,
      req_lora = \<lparr>mil_install_models = install_lora_models selections,
                  mil_remove_models = remove_lora_models selections\<rparr>,
      req_ti = \<lparr>mil_install_models = install_ti_models selections,
                mil_remove_models = remove_ti_models selections\<rparr>,
      req_scan_directory = truthy_path (scan_directory selections),
      req_external_models = import_model_paths selections,
      req_scan_at_startup = autoscan_on_startup selections,
      req_precision = (if full_precision opt then ''float32'' else chosen_precision),
      req_purge_deleted = purge_deleted_models selections,
      req_config_file_path = truthy_path (config_file opt)\<rparr>"

text \<open>
  The installer is outside this file. One call of it is what it writes to the
  standard streams and the log, one string per \<^verbatim>\<open>write\<close>, and whether it returns
  or raises.
\<close>

record installer_run =
  written :: "string list"
  raises :: bool

text \<open>
  What the body of \<^verbatim>\<open>process_and_execute\<close> does to \<^verbatim>\<open>conn_out\<close>, in order, and
  whether it returns (\<open>True\<close>) or leaves by the installer's exception. With a
  connection the standard streams and the log are redirected to it, so each
  \<^verbatim>\<open>write\<close> of the installer is one \<^verbatim>\<open>send_bytes\<close>; without one nothing
  touches a connection.
\<close>

datatype conn_op = SendBytes string | Close

definition process_and_execute ::
  "(install_request \<Rightarrow> installer_run) \<Rightarrow> string \<Rightarrow> options \<Rightarrow> UserSelections \<Rightarrow> bool
     \<Rightarrow> conn_op list \<times> bool" where
  "process_and_execute install_requested_models chosen_precision opt selections conn_out =
     (let r = install_requested_models (build_request chosen_precision opt selections);
          redirected = (if conn_out then map SendBytes (written r) else [])
      in if raises r then (redirected, False)
         else if conn_out then (redirected @ [SendBytes sentinel, Close], True)
         else (redirected, True))"

section \<open>Concrete forms\<close>

text \<open>
  An installation with two starter models, of which \<^verbatim>\<open>sd-1.5\<close> is in the
  configuration file, one additional diffusers model, two ControlNet models of
  which one is installed, no LoRA model and one installed textual inversion.
\<close>

definition example_env :: environment where
  "example_env =
     \<lparr>env_starter_models = [(lit ''sd-1.5'', True), (lit ''sd-2.1'', False)],
      env_existing_models = [lit ''sd-1.5''],
      env_model_info = [(lit ''sd-1.5'', ''diffusers''), (lit ''my-model'', ''diffusers'')],
      env_cn_models = [(lit ''lllyasviel/canny'', True), (lit ''lllyasviel/depth'', False)],
      env_lora_models = [],
      env_ti_models = [(lit ''easynegative'', True)]\<rparr>"

text \<open>The form that \<^verbatim>\<open>create\<close> builds there, before the user touches it.\<close>

definition example_form :: addModelsForm where
  "example_form =
     \<lparr>starter_model_list = [lit ''sd-1.5'', lit ''sd-2.1''],
      existing_models = [lit ''sd-1.5''],
      installed_diffusers_models = [(lit ''my-model'', True)],
      installed_cn_models = [(lit ''lllyasviel/canny'', True), (lit ''lllyasviel/depth'', False)],
      installed_lora_models = [],
      installed_ti_models = [(lit ''easynegative'', True)],
      starter_diffusers_models = \<lparr>starter_value = [0], starter_purge_deleted = False\<rparr>,
      diffusers_models =
        \<lparr>models_selected = Some \<lparr>ms_values = [lit ''my-model''], ms_value = [0]\<rparr>,
         download_ids = [], purge_deleted = False, autoload_directory = None,
         autoscan_checkbox = False\<rparr>,
      controlnet_models =
        \<lparr>models_selected =
           Some \<lparr>ms_values = [lit ''lllyasviel/canny'', lit ''lllyasviel/depth''], ms_value = [0]\<rparr>,
         download_ids = []\<rparr>,
      lora_models = \<lparr>models_selected = None, download_ids = []\<rparr>,
      ti_models =
        \<lparr>models_selected = Some \<lparr>ms_values = [lit ''easynegative''], ms_value = [0]\<rparr>,
         download_ids = []\<rparr>\<rparr>"

text \<open>
  The same form after the user has unchecked \<^verbatim>\<open>sd-1.5\<close>, \<^verbatim>\<open>my-model\<close> and
  \<^verbatim>\<open>easynegative\<close>, checked \<^verbatim>\<open>sd-2.1\<close> and \<^verbatim>\<open>lllyasviel/depth\<close>, ticked the
  purge checkbox of the starter tab only, and typed into the four free-text boxes.
\<close>

definition edited_form :: addModelsForm where
  "edited_form = example_form
     \<lparr>starter_diffusers_models := \<lparr>starter_value = [1], starter_purge_deleted = True\<rparr>,
      diffusers_models :=
        \<lparr>models_selected = Some \<lparr>ms_values = [lit ''my-model''], ms_value = []\<rparr>,
         download_ids = lit ''org/model-d'', purge_deleted = False, autoload_directory = None,
         autoscan_checkbox = False\<rparr>,
      controlnet_models :=
        \<lparr>models_selected =
           Some \<lparr>ms_values = [lit ''lllyasviel/canny'', lit ''lllyasviel/depth''], ms_value = [0, 1]\<rparr>,
         download_ids = lit ''org/model-a plain''\<rparr>,
      lora_models := \<lparr>models_selected = None, download_ids = lit ''org/model-a  org/model-b''\<rparr>,
      ti_models :=
        \<lparr>models_selected = Some \<lparr>ms_values = [lit ''easynegative''], ms_value = []\<rparr>,
         download_ids = lit ''org/model-t''\<rparr>\<rparr>"

definition edited_result :: UserSelections where
  "edited_result =
     \<lparr>install_models = [lit ''sd-2.1''], remove_models = [lit ''sd-1.5'', lit ''my-model''],
      purge_deleted_models = True,
      install_cn_models = [lit ''lllyasviel/depth'', lit ''org/model-a''], remove_cn_models = [],
      install_lora_models = [lit ''org/model-a'', lit ''org/model-b''], remove_lora_models = [],
      install_ti_models = [lit ''org/model-t''], remove_ti_models = [lit ''easynegative''],
      scan_directory = None, autoscan_on_startup = False,
      import_model_paths = [lit ''org/model-d'']\<rparr>"

text \<open>The starter model \<^verbatim>\<open>sd-1.5\<close> unchecked, and nothing else changed.\<close>

definition starter_unchecked_form :: addModelsForm where
  "starter_unchecked_form = example_form
     \<lparr>starter_diffusers_models := \<lparr>starter_value = [], starter_purge_deleted = False\<rparr>\<rparr>"

text \<open>A name without a slash typed into the free-text box of the ControlNet tab.\<close>

definition plain_name_form :: addModelsForm where
  "plain_name_form = example_form
     \<lparr>controlnet_models :=
        \<lparr>models_selected =
           Some \<lparr>ms_values = [lit ''lllyasviel/canny'', lit ''lllyasviel/depth''], ms_value = [0]\<rparr>,
         download_ids = lit ''plain''\<rparr>\<rparr>"

text \<open>
  The installed ControlNet model \<^verbatim>\<open>lllyasviel/canny\<close> unchecked, and its name
  typed into the free-text box of the same tab.\<close>

definition retyped_form :: addModelsForm where
  "retyped_form = example_form
     \<lparr>controlnet_models :=
        \<lparr>models_selected =
           Some \<lparr>ms_values = [lit ''lllyasviel/canny'', lit ''lllyasviel/depth''], ms_value = []\<rparr>,
         download_ids = lit ''lllyasviel/canny''\<rparr>\<rparr>"

text \<open>
  A name typed into the free-text box of the LoRA tab, which has no candidate;
  and the selections object that the first call of \<^verbatim>\<open>marshall_arguments\<close> leaves.
\<close>

definition lora_typed_form :: addModelsForm where
  "lora_typed_form = example_form
     \<lparr>lora_models := \<lparr>models_selected = None, download_ids = lit ''org/lora-a''\<rparr>\<rparr>"

definition lora_typed_result :: UserSelections where
  "lora_typed_result = empty_selections\<lparr>install_lora_models := [lit ''org/lora-a'']\<rparr>"

section \<open>States of a run\<close>

text \<open>
  \<open>reading M E\<close>: the form holds the connection, the other end is open and no
  sentinel is waiting; \<open>M\<close> and \<open>E\<close> are the log window and the events as they
  will be once the waiting chunks have been read.
\<close>

definition reading ::
  "(nat \<Rightarrow> string \<Rightarrow> string list) \<Rightarrow> nat \<Rightarrow> string list \<Rightarrow> LogEvent list
     \<Rightarrow> waiting_form \<times> LogEvent list \<Rightarrow> bool" where
  "reading wrap width M E st \<longleftrightarrow>
     (case subprocess_connection (fst st) of
        None \<Rightarrow> False
      | Some c \<Rightarrow>
          \<not> peer_closed c \<and> sentinel \<notin> set (pending c) \<and>
          monitor_values (fst st) @ concat (map (wrap width) (pending c)) = M \<and>
          snd st @ map (\<lambda>m. Text (wrap width m)) (pending c) = E)"

text \<open>
  \<open>finishing M E\<close>: the form holds the connection and the sentinel is waiting,
  behind the chunks \<open>msgs\<close>; \<open>M\<close> and \<open>E\<close> are as before.
\<close>

definition finishing ::
  "(nat \<Rightarrow> string \<Rightarrow> string list) \<Rightarrow> nat \<Rightarrow> string list \<Rightarrow> LogEvent list
     \<Rightarrow> waiting_form \<times> LogEvent list \<Rightarrow> bool" where
  "finishing wrap width M E st \<longleftrightarrow>
     (case subprocess_connection (fst st) of
        None \<Rightarrow> False
      | Some c \<Rightarrow>
          (\<exists>msgs rest. pending c = msgs @ sentinel # rest \<and> sentinel \<notin> set msgs \<and>
             monitor_values (fst st) @ concat (map (wrap width) msgs) = M \<and>
             snd st @ map (\<lambda>m. Text (wrap width m)) msgs = E))"

section \<open>Facts about the Python helpers\<close>

lemma comprehension_set:
  "comprehension cond elem xs = Inr r \<Longrightarrow>
   set r = {v. \<exists>x\<in>set xs. cond x = Inr True \<and> elem x = Inr v}"
proof (induction xs arbitrary: r)
  case Nil
  then show ?case by simp
next
  case (Cons x xs)
  then show ?case
    by (auto split: sum.splits bool.splits)
qed

lemma comprehension_total:
  "(\<And>x. x \<in> set xs \<Longrightarrow> \<exists>b. cond x = Inr b \<and> (b \<longrightarrow> (\<exists>v. elem x = Inr v))) \<Longrightarrow>
   \<exists>r. comprehension cond elem xs = Inr r"
proof (induction xs)
  case Nil
  then show ?case by simp
next
  case (Cons x xs)
  then obtain r where r: "comprehension cond elem xs = Inr r" by auto
  from Cons.prems[of x] obtain b where b: "cond x = Inr b" "b \<longrightarrow> (\<exists>v. elem x = Inr v)" by auto
  show ?case using r b by (cases b) auto
qed

lemma comprehension_none:
  "(\<And>x. x \<in> set xs \<Longrightarrow> cond x = Inr False) \<Longrightarrow> comprehension cond elem xs = Inr []"
  by (induction xs) auto

lemma list_index_member:
  "x \<in> set xs \<Longrightarrow> \<exists>i. list_index xs x = Inr i \<and> i < length xs \<and> xs ! i = x"
  by (induction xs) auto

lemma list_index_sound: "list_index xs x = Inr i \<Longrightarrow> i < length xs \<and> xs ! i = x"
proof (induction xs arbitrary: i)
  case Nil
  then show ?case by simp
next
  case (Cons y ys)
  then show ?case by (auto split: if_splits sum.splits)
qed

lemma getitem_Inr: "getitem xs i = Inr x \<longleftrightarrow> i < length xs \<and> xs ! i = x"
  by (simp add: getitem_def)

lemma set_keys: "set (keys d) = fst ` set d"
  by (simp add: keys_def)

lemma dict_getitem_keys: "x \<in> set (keys d) \<Longrightarrow> \<exists>v. dict_getitem d x = Inr v \<and> map_of d x = Some v"
proof -
  assume "x \<in> set (keys d)"
  then have "x \<in> fst ` set d" by (simp add: set_keys)
  then obtain v where "map_of d x = Some v"
    by (metis domD dom_map_of_conv_image_fst)
  then show ?thesis by (simp add: dict_getitem_def)
qed

lemma dict_getitem_Inr: "dict_getitem d x = Inr v \<longleftrightarrow> map_of d x = Some v"
  by (simp add: dict_getitem_def split: option.splits)

lemma set_sorted_py: "set (sorted_py xs) = set xs"
  by (simp add: sorted_py_def)

section \<open>Facts about the blocks of \<^verbatim>\<open>marshall_arguments\<close>\<close>

lemma starter_models_dict_set:
  "starter_models_dict f = Inr names \<Longrightarrow> set names = {x. starter_checked f x}"
proof -
  assume a: "starter_models_dict f = Inr names"
  then obtain r where r: "comprehension (\<lambda>x. Inr True) (\<lambda>x. getitem (starter_model_list f) x)
             (starter_value (starter_diffusers_models f)) = Inr r" and n: "names = rev (remdups (rev r))"
    by (auto simp: starter_models_dict_def split: sum.splits)
  have "set names = set r" using n by simp
  also have "\<dots> = {x. starter_checked f x}"
    using comprehension_set[OF r] by (auto simp: starter_checked_def list_ex_iff)
  finally show ?thesis .
qed

lemma starter_checked_member: "starter_checked f x \<Longrightarrow> x \<in> set (starter_model_list f)"
  by (auto simp: starter_checked_def list_ex_iff getitem_Inr)

lemma unchecked_installed_member:
  assumes "unchecked_installed d w = Inr r" and "x \<in> set r"
  shows "x \<in> set (ms_values w)" and "map_of d x = Some True"
    and "\<exists>i. list_index (ms_values w) x = Inr i \<and> i \<notin> set (ms_value w)"
proof -
  from comprehension_set[OF assms(1)[unfolded unchecked_installed_def]] assms(2)
  have x: "x \<in> set (ms_values w)"
    and c: "(case dict_getitem d x of Inl e \<Rightarrow> Inl e | Inr False \<Rightarrow> Inr False
             | Inr True \<Rightarrow> (case list_index (ms_values w) x of Inl e \<Rightarrow> Inl e
                            | Inr i \<Rightarrow> Inr (i \<notin> set (ms_value w)))) = Inr True"
    by auto
  show "x \<in> set (ms_values w)" by (rule x)
  from c show "map_of d x = Some True"
    by (auto simp: dict_getitem_Inr split: sum.splits bool.splits)
  from c show "\<exists>i. list_index (ms_values w) x = Inr i \<and> i \<notin> set (ms_value w)"
    by (auto split: sum.splits bool.splits)
qed

lemma checked_not_installed_member:
  assumes "checked_not_installed d w = Inr r" and "x \<in> set r"
  shows "map_of d x = Some False" and "\<exists>i\<in>set (ms_value w). getitem (ms_values w) i = Inr x"
proof -
  from comprehension_set[OF assms(1)[unfolded checked_not_installed_def]] assms(2)
  obtain i where i: "i \<in> set (ms_value w)" "getitem (ms_values w) i = Inr x"
    and c: "(case getitem (ms_values w) i of Inl e \<Rightarrow> Inl e
             | Inr v \<Rightarrow> (case dict_getitem d v of Inl e \<Rightarrow> Inl e | Inr b \<Rightarrow> Inr (\<not> b))) = Inr True"
    by auto
  from i show "\<exists>i\<in>set (ms_value w). getitem (ms_values w) i = Inr x" by auto
  from c i(2) show "map_of d x = Some False"
    by (auto simp: dict_getitem_Inr split: sum.splits)
qed

lemma checked_unchecked_disjoint:
  assumes "checked_not_installed d w = Inr inst" and "unchecked_installed d w = Inr rem"
  shows "set inst \<inter> set rem = {}"
proof -
  have False if "x \<in> set inst" "x \<in> set rem" for x
    using checked_not_installed_member(1)[OF assms(1) that(1)]
      unchecked_installed_member(2)[OF assms(2) that(2)] by simp
  then show ?thesis by auto
qed

lemma marshall_starter_result:
  assumes "marshall_starter f sel = Inr s"
  shows "\<exists>names. starter_models_dict f = Inr names \<and>
     s = sel\<lparr>purge_deleted_models :=
               starter_purge_deleted (starter_diffusers_models f) \<or>
               purge_deleted (diffusers_models f),
             install_models := filter (\<lambda>x. x \<notin> set (existing_models f)) names,
             remove_models :=
               filter (\<lambda>x. x \<in> set (existing_models f) \<and> x \<notin> set names)
                 (starter_model_list f)\<rparr>"
  using assms by (auto simp: marshall_starter_def split: sum.splits)

lemma marshall_diffusers_result:
  assumes "marshall_diffusers f sel = Inr s"
  shows "\<exists>unchecked.
     s = sel\<lparr>import_model_paths := str_split (download_ids (diffusers_models f)),
             remove_models := remove_models sel @ unchecked\<rparr> \<and>
     (case models_selected (diffusers_models f) of
        None \<Rightarrow> unchecked = []
      | Some w \<Rightarrow> unchecked_installed (installed_diffusers_models f) w = Inr unchecked)"
  using assms by (auto simp: marshall_diffusers_def Let_def split: sum.splits option.splits)

lemma marshall_cn_result:
  assumes "marshall_cn f sel = Inr s"
  shows "\<exists>inst rem.
     s = sel\<lparr>install_cn_models :=
               inst @ filter (\<lambda>x. of_char CHR ''/'' \<in> set x)
                        (str_split (download_ids (controlnet_models f))),
             remove_cn_models := rem\<rparr> \<and>
     (case models_selected (controlnet_models f) of
        None \<Rightarrow> inst = install_cn_models sel \<and> rem = remove_cn_models sel
      | Some w \<Rightarrow> checked_not_installed (installed_cn_models f) w = Inr inst \<and>
                  unchecked_installed (installed_cn_models f) w = Inr rem)"
  using assms
  by (auto simp: marshall_cn_def Let_def split: sum.splits option.splits if_splits)

lemma marshall_lora_result:
  assumes "marshall_lora f sel = Inr s"
  shows "\<exists>inst rem.
     s = sel\<lparr>install_lora_models := inst @ str_split (download_ids (lora_models f)),
             remove_lora_models := rem\<rparr> \<and>
     (case models_selected (lora_models f) of
        None \<Rightarrow> inst = install_lora_models sel \<and> rem = remove_lora_models sel
      | Some w \<Rightarrow> checked_not_installed (installed_lora_models f) w = Inr inst \<and>
                  unchecked_installed (installed_lora_models f) w = Inr rem)"
  using assms
  by (auto simp: marshall_lora_def Let_def split: sum.splits option.splits if_splits)

lemma marshall_ti_result:
  assumes "marshall_ti f sel = Inr s"
  shows "\<exists>inst rem.
     s = sel\<lparr>install_ti_models := inst @ str_split (download_ids (ti_models f)),
             remove_ti_models := rem\<rparr> \<and>
     (case models_selected (ti_models f) of
        None \<Rightarrow> inst = install_ti_models sel \<and> rem = remove_ti_models sel
      | Some w \<Rightarrow> checked_not_installed (installed_ti_models f) w = Inr inst \<and>
                  unchecked_installed (installed_ti_models f) w = Inr rem)"
  using assms
  by (auto simp: marshall_ti_def Let_def split: sum.splits option.splits if_splits)

lemma marshall_arguments_blocks:
  assumes "marshall_arguments f sel = Inr s"
  shows "\<exists>s1 s2 s3 s4 s5.
     marshall_starter f sel = Inr s1 \<and> marshall_diffusers f s1 = Inr s2 \<and>
     marshall_cn f s2 = Inr s3 \<and> marshall_lora f s3 = Inr s4 \<and> marshall_ti f s4 = Inr s5 \<and>
     s = s5\<lparr>scan_directory := autoload_directory (diffusers_models f),
             autoscan_on_startup := autoscan_checkbox (diffusers_models f)\<rparr>"
  using assms by (auto simp: marshall_arguments_def split: sum.splits)

text \<open>
  \<^verbatim>\<open>split()\<close> cuts at every white-space code point, not only at the ASCII ones:
  here at a no-break space (U+00A0), at a next-line character (U+0085) and at
  an em space (U+2003).
\<close>

lemma str_split_unicode_space:
  "str_split (lit ''org/a'' @ [0xA0] @ lit ''org/b'' @ [0x85, 0x20] @ lit ''c'' @ [0x2003] @ lit ''d'')
     = [lit ''org/a'', lit ''org/b'', lit ''c'', lit ''d'']"
  by (simp add: str_split_def isspace_def lit_def)

text \<open>Every field of the result of \<^verbatim>\<open>marshall_arguments\<close>, in terms of the form and
  of the selections object it was given.\<close>

lemma marshall_arguments_fields:
  assumes "marshall_arguments f sel = Inr s"
  shows "\<exists>names unchecked cn_inst cn_rem lora_inst lora_rem ti_inst ti_rem.
     starter_models_dict f = Inr names \<and>
     install_models s = filter (\<lambda>x. x \<notin> set (existing_models f)) names \<and>
     remove_models s =
       filter (\<lambda>x. x \<in> set (existing_models f) \<and> x \<notin> set names) (starter_model_list f)
       @ unchecked \<and>
     (case models_selected (diffusers_models f) of
        None \<Rightarrow> unchecked = []
      | Some w \<Rightarrow> unchecked_installed (installed_diffusers_models f) w = Inr unchecked) \<and>
     purge_deleted_models s =
       (starter_purge_deleted (starter_diffusers_models f) \<or> purge_deleted (diffusers_models f)) \<and>
     import_model_paths s = str_split (download_ids (diffusers_models f)) \<and>
     install_cn_models s =
       cn_inst @ filter (\<lambda>x. of_char CHR ''/'' \<in> set x)
                   (str_split (download_ids (controlnet_models f))) \<and>
     remove_cn_models s = cn_rem \<and>
     (case models_selected (controlnet_models f) of
        None \<Rightarrow> cn_inst = install_cn_models sel \<and> cn_rem = remove_cn_models sel
      | Some w \<Rightarrow> checked_not_installed (installed_cn_models f) w = Inr cn_inst \<and>
                  unchecked_installed (installed_cn_models f) w = Inr cn_rem) \<and>
     install_lora_models s = lora_inst @ str_split (download_ids (lora_models f)) \<and>
     remove_lora_models s = lora_rem \<and>
     (case models_selected (lora_models f) of
        None \<Rightarrow> lora_inst = install_lora_models sel \<and> lora_rem = remove_lora_models sel
      | Some w \<Rightarrow> checked_not_installed (installed_lora_models f) w = Inr lora_inst \<and>
                  unchecked_installed (installed_lora_models f) w = Inr lora_rem) \<and>
     install_ti_models s = ti_inst @ str_split (download_ids (ti_models f)) \<and>
     remove_ti_models s = ti_rem \<and>
     (case models_selected (ti_models f) of
        None \<Rightarrow> ti_inst = install_ti_models sel \<and> ti_rem = remove_ti_models sel
      | Some w \<Rightarrow> checked_not_installed (installed_ti_models f) w = Inr ti_inst \<and>
                  unchecked_installed (installed_ti_models f) w = Inr ti_rem)"
proof -
  from marshall_arguments_blocks[OF assms] obtain s1 s2 s3 s4 s5 where
    b1: "marshall_starter f sel = Inr s1" and b2: "marshall_diffusers f s1 = Inr s2" and
    b3: "marshall_cn f s2 = Inr s3" and b4: "marshall_lora f s3 = Inr s4" and
    b5: "marshall_ti f s4 = Inr s5" and
    s: "s = s5\<lparr>scan_directory := autoload_directory (diffusers_models f),
             autoscan_on_startup := autoscan_checkbox (diffusers_models f)\<rparr>"
    by blast
  from marshall_starter_result[OF b1] obtain names where
    n: "starter_models_dict f = Inr names" and
    s1: "s1 = sel\<lparr>purge_deleted_models :=
               starter_purge_deleted (starter_diffusers_models f) \<or>
               purge_deleted (diffusers_models f),
             install_models := filter (\<lambda>x. x \<notin> set (existing_models f)) names,
             remove_models :=
               filter (\<lambda>x. x \<in> set (existing_models f) \<and> x \<notin> set names)
                 (starter_model_list f)\<rparr>"
    by blast
  from marshall_diffusers_result[OF b2] obtain unch where
    s2: "s2 = s1\<lparr>import_model_paths := str_split (download_ids (diffusers_models f)),
             remove_models := remove_models s1 @ unch\<rparr>" and
    u: "(case models_selected (diffusers_models f) of
        None \<Rightarrow> unch = []
      | Some w \<Rightarrow> unchecked_installed (installed_diffusers_models f) w = Inr unch)"
    by blast
  from marshall_cn_result[OF b3] obtain cn_inst cn_rem where
    s3: "s3 = s2\<lparr>install_cn_models :=
               cn_inst @ filter (\<lambda>x. of_char CHR ''/'' \<in> set x)
                        (str_split (download_ids (controlnet_models f))),
             remove_cn_models := cn_rem\<rparr>" and
    c: "(case models_selected (controlnet_models f) of
        None \<Rightarrow> cn_inst = install_cn_models s2 \<and> cn_rem = remove_cn_models s2
      | Some w \<Rightarrow> checked_not_installed (installed_cn_models f) w = Inr cn_inst \<and>
                  unchecked_installed (installed_cn_models f) w = Inr cn_rem)"
    by blast
  from marshall_lora_result[OF b4] obtain lora_inst lora_rem where
    s4: "s4 = s3\<lparr>install_lora_models := lora_inst @ str_split (download_ids (lora_models f)),
             remove_lora_models := lora_rem\<rparr>" and
    l: "(case models_selected (lora_models f) of
        None \<Rightarrow> lora_inst = install_lora_models s3 \<and> lora_rem = remove_lora_models s3
      | Some w \<Rightarrow> checked_not_installed (installed_lora_models f) w = Inr lora_inst \<and>
                  unchecked_installed (installed_lora_models f) w = Inr lora_rem)"
    by blast
  from marshall_ti_result[OF b5] obtain ti_inst ti_rem where
    s5: "s5 = s4\<lparr>install_ti_models := ti_inst @ str_split (download_ids (ti_models f)),
             remove_ti_models := ti_rem\<rparr>" and
    t: "(case models_selected (ti_models f) of
        None \<Rightarrow> ti_inst = install_ti_models s4 \<and> ti_rem = remove_ti_models s4
      | Some w \<Rightarrow> checked_not_installed (installed_ti_models f) w = Inr ti_inst \<and>
                  unchecked_installed (installed_ti_models f) w = Inr ti_rem)"
    by blast
  have c': "(case models_selected (controlnet_models f) of
        None \<Rightarrow> cn_inst = install_cn_models sel \<and> cn_rem = remove_cn_models sel
      | Some w \<Rightarrow> checked_not_installed (installed_cn_models f) w = Inr cn_inst \<and>
                  unchecked_installed (installed_cn_models f) w = Inr cn_rem)"
    using c by (simp add: s2 s1 split: option.splits)
  have l': "(case models_selected (lora_models f) of
        None \<Rightarrow> lora_inst = install_lora_models sel \<and> lora_rem = remove_lora_models sel
      | Some w \<Rightarrow> checked_not_installed (installed_lora_models f) w = Inr lora_inst \<and>
                  unchecked_installed (installed_lora_models f) w = Inr lora_rem)"
    using l by (simp add: s3 s2 s1 split: option.splits)
  have t': "(case models_selected (ti_models f) of
        None \<Rightarrow> ti_inst = install_ti_models sel \<and> ti_rem = remove_ti_models sel
      | Some w \<Rightarrow> checked_not_installed (installed_ti_models f) w = Inr ti_inst \<and>
                  unchecked_installed (installed_ti_models f) w = Inr ti_rem)"
    using t by (simp add: s4 s3 s2 s1 split: option.splits)
  have f1: "install_models s = filter (\<lambda>x. x \<notin> set (existing_models f)) names"
    by (simp add: s s5 s4 s3 s2 s1)
  have f2: "remove_models s =
       filter (\<lambda>x. x \<in> set (existing_models f) \<and> x \<notin> set names) (starter_model_list f)
       @ unch"
    by (simp add: s s5 s4 s3 s2 s1)
  have f3: "purge_deleted_models s =
       (starter_purge_deleted (starter_diffusers_models f) \<or> purge_deleted (diffusers_models f))"
    by (simp add: s s5 s4 s3 s2 s1)
  have f4: "import_model_paths s = str_split (download_ids (diffusers_models f))"
    by (simp add: s s5 s4 s3 s2 s1)
  have f5: "install_cn_models s =
       cn_inst @ filter (\<lambda>x. of_char CHR ''/'' \<in> set x)
                   (str_split (download_ids (controlnet_models f)))"
    and f6: "remove_cn_models s = cn_rem"
    by (simp_all add: s s5 s4 s3)
  have f7: "install_lora_models s = lora_inst @ str_split (download_ids (lora_models f))"
    and f8: "remove_lora_models s = lora_rem"
    by (simp_all add: s s5 s4)
  have f9: "install_ti_models s = ti_inst @ str_split (download_ids (ti_models f))"
    and f10: "remove_ti_models s = ti_rem"
    by (simp_all add: s s5)
  show ?thesis
    by (rule exI[of _ names], rule exI[of _ unch], rule exI[of _ cn_inst], rule exI[of _ cn_rem],
        rule exI[of _ lora_inst], rule exI[of _ lora_rem], rule exI[of _ ti_inst],
        rule exI[of _ ti_rem], intro conjI; fact)
qed

text \<open>With valid indices on a well-formed form, \<^verbatim>\<open>marshall_arguments\<close> raises nothing.\<close>

lemma unchecked_installed_total:
  assumes "ms_values w = sorted_py (keys d)"
  shows "\<exists>r. unchecked_installed d w = Inr r"
  unfolding unchecked_installed_def
proof (rule comprehension_total)
  fix x assume x: "x \<in> set (ms_values w)"
  then have "x \<in> set (keys d)" using assms by (simp add: set_sorted_py)
  from dict_getitem_keys[OF this] obtain v where v: "dict_getitem d x = Inr v" by blast
  from list_index_member[OF x] obtain i where i: "list_index (ms_values w) x = Inr i" by blast
  show "\<exists>b. (case dict_getitem d x of Inl e \<Rightarrow> Inl e | Inr False \<Rightarrow> Inr False
             | Inr True \<Rightarrow> (case list_index (ms_values w) x of Inl e \<Rightarrow> Inl e
                            | Inr i \<Rightarrow> Inr (i \<notin> set (ms_value w)))) = Inr b
            \<and> (b \<longrightarrow> (\<exists>v. (Inr x :: error + pystr) = Inr v))"
    using v i by (cases v) auto
qed

lemma checked_not_installed_total:
  assumes "ms_values w = sorted_py (keys d)"
    and "list_all (\<lambda>i. i < length (ms_values w)) (ms_value w)"
  shows "\<exists>r. checked_not_installed d w = Inr r"
  unfolding checked_not_installed_def
proof (rule comprehension_total)
  fix i assume "i \<in> set (ms_value w)"
  then have i: "i < length (ms_values w)" using assms(2) by (simp add: list_all_iff)
  then have "ms_values w ! i \<in> set (keys d)"
    using assms(1) by (metis nth_mem set_sorted_py)
  from dict_getitem_keys[OF this] obtain v where "dict_getitem d (ms_values w ! i) = Inr v"
    by blast
  then show "\<exists>b. (case getitem (ms_values w) i of Inl e \<Rightarrow> Inl e
             | Inr v \<Rightarrow> (case dict_getitem d v of Inl e \<Rightarrow> Inl e | Inr b \<Rightarrow> Inr (\<not> b))) = Inr b
            \<and> (b \<longrightarrow> (\<exists>v. getitem (ms_values w) i = Inr v))"
    using i by (simp add: getitem_def)
qed

lemma starter_models_dict_total:
  assumes "list_all (\<lambda>i. i < length (starter_model_list f))
             (starter_value (starter_diffusers_models f))"
  shows "\<exists>names. starter_models_dict f = Inr names"
proof -
  have "\<exists>r. comprehension (\<lambda>x. Inr True) (\<lambda>x. getitem (starter_model_list f) x)
             (starter_value (starter_diffusers_models f)) = Inr r"
    by (rule comprehension_total) (use assms in \<open>auto simp: list_all_iff getitem_def\<close>)
  then show ?thesis by (auto simp: starter_models_dict_def)
qed

lemma marshall_arguments_total:
  assumes "form_inv f" and "valid_selection f"
  shows "\<exists>s. marshall_arguments f sel = Inr s"
proof -
  from assms(2) obtain names where n: "starter_models_dict f = Inr names"
    using starter_models_dict_total by (auto simp: valid_selection_def)
  then obtain s1 where s1: "marshall_starter f sel = Inr s1"
    by (simp add: marshall_starter_def)
  have "\<exists>s2. marshall_diffusers f s1 = Inr s2"
  proof (cases "models_selected (diffusers_models f)")
    case None
    then show ?thesis by (simp add: marshall_diffusers_def)
  next
    case (Some w)
    then have "ms_values w = sorted_py (keys (installed_diffusers_models f))"
      using assms(1) by (simp add: form_inv_def widget_inv_def)
    from unchecked_installed_total[OF this] Some show ?thesis
      by (auto simp: marshall_diffusers_def)
  qed
  then obtain s2 where s2: "marshall_diffusers f s1 = Inr s2" by blast
  have "\<exists>s3. marshall_cn f s2 = Inr s3"
  proof (cases "models_selected (controlnet_models f)")
    case None
    then show ?thesis by (simp add: marshall_cn_def Let_def)
  next
    case (Some w)
    then have v: "ms_values w = sorted_py (keys (installed_cn_models f))"
      using assms(1) by (simp add: form_inv_def widget_inv_def)
    have i: "list_all (\<lambda>i. i < length (ms_values w)) (ms_value w)"
      using assms(2) Some by (simp add: valid_selection_def valid_indices_def)
    from unchecked_installed_total[OF v] checked_not_installed_total[OF v i] Some
    show ?thesis by (auto simp: marshall_cn_def Let_def)
  qed
  then obtain s3 where s3: "marshall_cn f s2 = Inr s3" by blast
  have "\<exists>s4. marshall_lora f s3 = Inr s4"
  proof (cases "models_selected (lora_models f)")
    case None
    then show ?thesis by (simp add: marshall_lora_def Let_def)
  next
    case (Some w)
    then have v: "ms_values w = sorted_py (keys (installed_lora_models f))"
      using assms(1) by (simp add: form_inv_def widget_inv_def)
    have i: "list_all (\<lambda>i. i < length (ms_values w)) (ms_value w)"
      using assms(2) Some by (simp add: valid_selection_def valid_indices_def)
    from unchecked_installed_total[OF v] checked_not_installed_total[OF v i] Some
    show ?thesis by (auto simp: marshall_lora_def Let_def)
  qed
  then obtain s4 where s4: "marshall_lora f s3 = Inr s4" by blast
  have "\<exists>s5. marshall_ti f s4 = Inr s5"
  proof (cases "models_selected (ti_models f)")
    case None
    then show ?thesis by (simp add: marshall_ti_def Let_def)
  next
    case (Some w)
    then have v: "ms_values w = sorted_py (keys (installed_ti_models f))"
      using assms(1) by (simp add: form_inv_def widget_inv_def)
    have i: "list_all (\<lambda>i. i < length (ms_values w)) (ms_value w)"
      using assms(2) Some by (simp add: valid_selection_def valid_indices_def)
    from unchecked_installed_total[OF v] checked_not_installed_total[OF v i] Some
    show ?thesis by (auto simp: marshall_ti_def Let_def)
  qed
  then obtain s5 where s5: "marshall_ti f s4 = Inr s5" by blast
  show ?thesis using s1 s2 s3 s4 s5 by (simp add: marshall_arguments_def)
qed

section \<open>The concrete forms, evaluated\<close>

lemma create_example: "create example_env = Inr example_form"
  by (simp add: create_def example_env_def example_form_def lit_def add_starter_diffusers_def
      add_diffusers_widgets_def add_model_widgets_def initial_checks_def
      list_additional_diffusers_models_def keys_def sorted_py_def dict_getitem_def Let_def)

lemma form_inv_example: "form_inv example_form"
  by (simp add: form_inv_def widget_inv_def example_form_def lit_def keys_def sorted_py_def)

lemma form_inv_edited: "form_inv edited_form"
  by (simp add: form_inv_def widget_inv_def edited_form_def example_form_def lit_def keys_def
      sorted_py_def)

lemma marshall_edited: "marshall_arguments edited_form empty_selections = Inr edited_result"
  by (simp add: marshall_arguments_def marshall_starter_def marshall_diffusers_def
      marshall_cn_def marshall_lora_def marshall_ti_def starter_models_dict_def
      unchecked_installed_def checked_not_installed_def getitem_def dict_getitem_def
      str_split_def isspace_def lit_def edited_form_def example_form_def empty_selections_def
      edited_result_def Let_def)

section \<open>What \<^verbatim>\<open>create\<close> establishes\<close>

lemma add_model_widgets_inv:
  "add_model_widgets d = Inr w \<Longrightarrow> widget_inv d (models_selected w)"
  by (auto simp: add_model_widgets_def widget_inv_def Let_def split: if_splits sum.splits)

lemma initial_checks_valid:
  assumes "initial_checks model_list d = Inr checks"
  shows "list_all (\<lambda>i. i < length model_list) checks"
proof -
  have "i < length model_list" if "i \<in> set checks" for i
  proof -
    from comprehension_set[OF assms[unfolded initial_checks_def]] that
    obtain x where "list_index model_list x = Inr i" by auto
    from list_index_sound[OF this] show ?thesis by simp
  qed
  then show ?thesis by (simp add: list_all_iff)
qed

lemma add_model_widgets_valid:
  "add_model_widgets d = Inr w \<Longrightarrow> valid_indices (models_selected w)"
  by (auto simp: add_model_widgets_def valid_indices_def Let_def initial_checks_valid
      split: if_splits sum.splits)

lemma add_model_widgets_total: "\<exists>w. add_model_widgets d = Inr w"
proof -
  let ?l = "sorted_py (keys d)"
  have "\<exists>r. initial_checks ?l d = Inr r"
    unfolding initial_checks_def
  proof (rule comprehension_total)
    fix x assume x: "x \<in> set ?l"
    then have "x \<in> set (keys d)" by (simp add: set_sorted_py)
    from dict_getitem_keys[OF this] obtain v where "dict_getitem d x = Inr v" by blast
    moreover from list_index_member[OF x] obtain i where "list_index ?l x = Inr i" by blast
    ultimately show "\<exists>b. dict_getitem d x = Inr b \<and> (b \<longrightarrow> (\<exists>v. list_index ?l x = Inr v))"
      by simp
  qed
  then show ?thesis by (auto simp: add_model_widgets_def Let_def)
qed

lemma add_starter_diffusers_total:
  "\<exists>w. add_starter_diffusers starters recommended existing = Inr w"
proof -
  have "\<exists>r. comprehension
          (\<lambda>x. Inr ((existing = [] \<and> x \<in> set recommended) \<or> x \<in> set existing))
          (\<lambda>x. list_index starters x) starters = Inr r"
  proof (rule comprehension_total)
    fix x assume "x \<in> set starters"
    from list_index_member[OF this] obtain i where "list_index starters x = Inr i" by blast
    then show "\<exists>b. (Inr ((existing = [] \<and> x \<in> set recommended) \<or> x \<in> set existing)
                      :: error + bool) = Inr b \<and>
                   (b \<longrightarrow> (\<exists>v. list_index starters x = Inr v))"
      by simp
  qed
  then show ?thesis by (auto simp: add_starter_diffusers_def Let_def)
qed

lemma add_starter_diffusers_valid:
  assumes "add_starter_diffusers starters recommended existing = Inr w"
  shows "list_all (\<lambda>i. i < length starters) (starter_value w)"
proof -
  from assms obtain checks where
    c: "comprehension
          (\<lambda>x. Inr ((existing = [] \<and> x \<in> set recommended) \<or> x \<in> set existing))
          (\<lambda>x. list_index starters x) starters = Inr checks"
    and w: "starter_value w = checks"
    by (auto simp: add_starter_diffusers_def Let_def split: sum.splits)
  have "i < length starters" if "i \<in> set checks" for i
  proof -
    from comprehension_set[OF c] that obtain x where "list_index starters x = Inr i" by auto
    from list_index_sound[OF this] show ?thesis by simp
  qed
  then show ?thesis by (simp add: w list_all_iff)
qed

lemma additional_not_starter:
  "set (keys (list_additional_diffusers_models model_info starters)) \<inter> set starters = {}"
  by (auto simp: set_keys list_additional_diffusers_models_def)

text \<open>
  \<^verbatim>\<open>create\<close> raises nothing, and the form it builds is well formed with valid
  checks. The user changes the checks, the free-text boxes and the checkboxes,
  none of which \<open>form_inv\<close> mentions.
\<close>

lemma create_total: "\<exists>f. create env = Inr f"
proof -
  let ?starters = "keys (env_starter_models env)"
  obtain sw where sw: "add_starter_diffusers ?starters
       (filter (\<lambda>x. map_of (env_starter_models env) x = Some True) ?starters)
       (env_existing_models env) = Inr sw"
    using add_starter_diffusers_total by blast
  obtain dw0 where dw0: "add_model_widgets
       (list_additional_diffusers_models (env_model_info env) ?starters) = Inr dw0"
    using add_model_widgets_total by blast
  obtain cw where cw: "add_model_widgets (env_cn_models env) = Inr cw"
    using add_model_widgets_total by blast
  obtain lw where lw: "add_model_widgets (env_lora_models env) = Inr lw"
    using add_model_widgets_total by blast
  obtain tw where tw: "add_model_widgets (env_ti_models env) = Inr tw"
    using add_model_widgets_total by blast
  show ?thesis
    by (simp add: create_def Let_def sw add_diffusers_widgets_def dw0 cw lw tw)
qed

lemma create_form_inv:
  assumes "create env = Inr f"
  shows "form_inv f \<and> valid_selection f"
proof -
  let ?starters = "keys (env_starter_models env)"
  let ?inst = "list_additional_diffusers_models (env_model_info env) ?starters"
  from assms obtain sw dw0 cw lw tw where
    sw: "add_starter_diffusers ?starters
       (filter (\<lambda>x. map_of (env_starter_models env) x = Some True) ?starters)
       (env_existing_models env) = Inr sw" and
    dw0: "add_model_widgets ?inst = Inr dw0" and
    cw: "add_model_widgets (env_cn_models env) = Inr cw" and
    lw: "add_model_widgets (env_lora_models env) = Inr lw" and
    tw: "add_model_widgets (env_ti_models env) = Inr tw" and
    f: "f = \<lparr>starter_model_list = ?starters,
               existing_models = env_existing_models env,
               installed_diffusers_models = ?inst,
               installed_cn_models = env_cn_models env,
               installed_lora_models = env_lora_models env,
               installed_ti_models = env_ti_models env,
               starter_diffusers_models = sw,
               diffusers_models =
                 \<lparr>models_selected = models_selected dw0, download_ids = download_ids dw0,
                  purge_deleted = False, autoload_directory = None,
                  autoscan_checkbox = False\<rparr>,
               controlnet_models = cw,
               lora_models = lw,
               ti_models = tw\<rparr>"
    by (auto simp: create_def Let_def add_diffusers_widgets_def split: sum.splits)
  have "form_inv f"
    using add_model_widgets_inv[OF dw0] add_model_widgets_inv[OF cw]
      add_model_widgets_inv[OF lw] add_model_widgets_inv[OF tw]
      additional_not_starter[of "env_model_info env" ?starters]
    by (simp add: f form_inv_def)
  moreover have "valid_selection f"
    using add_model_widgets_valid[OF dw0] add_model_widgets_valid[OF cw]
      add_model_widgets_valid[OF lw] add_model_widgets_valid[OF tw]
      add_starter_diffusers_valid[OF sw]
    by (simp add: f valid_selection_def)
  ultimately show ?thesis by simp
qed

section \<open>The install and remove lists\<close>

text \<open>
  Claim C1, as amended. For the starter category a name is in the install list
  exactly when it is checked and not already installed (not in the configuration
  file). The remove list is computed from unchecking: a name of the starter list
  is in the remove list exactly when it is installed and unchecked.
\<close>

theorem starter_install_and_remove:
  assumes "form_inv f" and "marshall_arguments f sel = Inr s"
  shows "(x \<in> set (install_models s) \<longleftrightarrow>
            starter_checked f x \<and> x \<notin> set (existing_models f)) \<and>
         (x \<in> set (starter_model_list f) \<longrightarrow>
            (x \<in> set (remove_models s) \<longleftrightarrow>
               x \<in> set (existing_models f) \<and> \<not> starter_checked f x))"
proof -
  from marshall_arguments_fields[OF assms(2)] obtain names unch where
    n: "starter_models_dict f = Inr names" and
    i: "install_models s = filter (\<lambda>x. x \<notin> set (existing_models f)) names" and
    r: "remove_models s =
       filter (\<lambda>x. x \<in> set (existing_models f) \<and> x \<notin> set names) (starter_model_list f)
       @ unch" and
    u: "(case models_selected (diffusers_models f) of
        None \<Rightarrow> unch = []
      | Some w \<Rightarrow> unchecked_installed (installed_diffusers_models f) w = Inr unch)"
    by blast
  note names = starter_models_dict_set[OF n]
  have first: "x \<in> set (install_models s) \<longleftrightarrow>
            starter_checked f x \<and> x \<notin> set (existing_models f)"
    using i names by auto
  have no_starter: "x \<notin> set unch" if x: "x \<in> set (starter_model_list f)"
  proof (cases "models_selected (diffusers_models f)")
    case None
    then show ?thesis using u by simp
  next
    case (Some w)
    then have un: "unchecked_installed (installed_diffusers_models f) w = Inr unch"
      using u by simp
    have v: "ms_values w = sorted_py (keys (installed_diffusers_models f))"
      using assms(1) Some by (simp add: form_inv_def widget_inv_def)
    show ?thesis
    proof
      assume "x \<in> set unch"
      from unchecked_installed_member(1)[OF un this]
      have "x \<in> set (keys (installed_diffusers_models f))" by (simp add: v set_sorted_py)
      then show False using assms(1) x by (auto simp: form_inv_def)
    qed
  qed
  have second: "x \<in> set (remove_models s) \<longleftrightarrow>
               x \<in> set (existing_models f) \<and> \<not> starter_checked f x"
    if "x \<in> set (starter_model_list f)"
    using r names no_starter[OF that] that by auto
  from first second show ?thesis by blast
qed

theorem starter_install_and_remove_witness:
  "form_inv edited_form \<and>
   marshall_arguments edited_form empty_selections = Inr edited_result \<and>
   lit ''sd-2.1'' \<in> set (install_models edited_result) \<and>
   starter_checked edited_form (lit ''sd-2.1'') \<and>
   lit ''sd-1.5'' \<in> set (starter_model_list edited_form) \<and>
   lit ''sd-1.5'' \<in> set (remove_models edited_result) \<and>
   \<not> starter_checked edited_form (lit ''sd-1.5'')"
  using starter_install_and_remove[OF form_inv_edited marshall_edited, of "lit ''sd-2.1''"]
    starter_install_and_remove[OF form_inv_edited marshall_edited, of "lit ''sd-1.5''"]
    form_inv_edited marshall_edited
  by (simp add: edited_form_def example_form_def lit_def edited_result_def)

text \<open>
  Claim C1 as stated fails: with \<^verbatim>\<open>sd-1.5\<close> installed and unchecked and nothing
  else changed, \<^verbatim>\<open>sd-1.5\<close> is in the remove list; with it still checked the
  remove list is empty.
\<close>

theorem starter_remove_counterexample:
  "map_sum id remove_models (marshall_arguments starter_unchecked_form empty_selections)
     = Inr [lit ''sd-1.5''] \<and>
   map_sum id remove_models (marshall_arguments example_form empty_selections) = Inr []"
  by (simp add: marshall_arguments_def marshall_starter_def marshall_diffusers_def
      marshall_cn_def marshall_lora_def marshall_ti_def starter_models_dict_def
      unchecked_installed_def checked_not_installed_def getitem_def dict_getitem_def
      str_split_def isspace_def lit_def starter_unchecked_form_def example_form_def
      empty_selections_def Let_def)

text \<open>
  Claim C2, as amended. Whatever is checked and whatever is installed, the
  install list of the LoRA category and that of the textual-inversion category
  end with all the white-space separated entries of their free-text box, in
  order and unchanged; the install list of the ControlNet category ends with
  those entries of its box that contain a slash; the entries of the box on the
  diffusers tab are stored as \<^verbatim>\<open>import_model_paths\<close>, not in an install list.
\<close>

theorem free_text_appended:
  assumes "marshall_arguments f sel = Inr s"
  shows "(\<exists>pre. install_lora_models s = pre @ str_split (download_ids (lora_models f))) \<and>
         (\<exists>pre. install_ti_models s = pre @ str_split (download_ids (ti_models f))) \<and>
         (\<exists>pre. install_cn_models s =
                  pre @ filter (\<lambda>x. of_char CHR ''/'' \<in> set x)
                          (str_split (download_ids (controlnet_models f)))) \<and>
         import_model_paths s = str_split (download_ids (diffusers_models f))"
  using marshall_arguments_fields[OF assms] by blast

theorem free_text_appended_witness:
  "marshall_arguments edited_form empty_selections = Inr edited_result \<and>
   str_split (download_ids (lora_models edited_form)) = [lit ''org/model-a'', lit ''org/model-b''] \<and>
   (\<exists>pre. install_lora_models edited_result = pre @ [lit ''org/model-a'', lit ''org/model-b''])"
proof -
  have e: "str_split (download_ids (lora_models edited_form)) = [lit ''org/model-a'', lit ''org/model-b'']"
    by (simp add: edited_form_def example_form_def str_split_def isspace_def lit_def)
  from free_text_appended[OF marshall_edited] marshall_edited e show ?thesis by simp
qed

text \<open>
  Claim C2 as stated fails: the entry \<^verbatim>\<open>plain\<close> of the ControlNet free-text box
  has no slash and is not in the ControlNet install list.
\<close>

theorem free_text_counterexample:
  "str_split (download_ids (controlnet_models plain_name_form)) = [lit ''plain''] \<and>
   map_sum id install_cn_models (marshall_arguments plain_name_form empty_selections) = Inr []"
  by (simp add: marshall_arguments_def marshall_starter_def marshall_diffusers_def
      marshall_cn_def marshall_lora_def marshall_ti_def starter_models_dict_def
      unchecked_installed_def checked_not_installed_def getitem_def dict_getitem_def
      str_split_def isspace_def lit_def plain_name_form_def example_form_def
      empty_selections_def Let_def)

text \<open>The lists of a result, category by category.\<close>

lemma result_lists_disjoint:
  assumes "form_inv f" and "marshall_arguments f sel = Inr s"
    and "set (install_cn_models sel) \<inter> set (remove_cn_models sel) = {}"
    and "set (install_lora_models sel) \<inter> set (remove_lora_models sel) = {}"
    and "set (install_ti_models sel) \<inter> set (remove_ti_models sel) = {}"
  shows "set (install_models s) \<inter> set (remove_models s) = {}"
    and "set (str_split (download_ids (controlnet_models f))) \<inter> set (remove_cn_models s) = {}
         \<Longrightarrow> set (install_cn_models s) \<inter> set (remove_cn_models s) = {}"
    and "set (str_split (download_ids (lora_models f))) \<inter> set (remove_lora_models s) = {}
         \<Longrightarrow> set (install_lora_models s) \<inter> set (remove_lora_models s) = {}"
    and "set (str_split (download_ids (ti_models f))) \<inter> set (remove_ti_models s) = {}
         \<Longrightarrow> set (install_ti_models s) \<inter> set (remove_ti_models s) = {}"
proof -
  from marshall_arguments_fields[OF assms(2)]
  obtain names unch cn_inst cn_rem lora_inst lora_rem ti_inst ti_rem where
    n: "starter_models_dict f = Inr names" and
    i: "install_models s = filter (\<lambda>x. x \<notin> set (existing_models f)) names" and
    r: "remove_models s =
       filter (\<lambda>x. x \<in> set (existing_models f) \<and> x \<notin> set names) (starter_model_list f)
       @ unch" and
    u: "(case models_selected (diffusers_models f) of
        None \<Rightarrow> unch = []
      | Some w \<Rightarrow> unchecked_installed (installed_diffusers_models f) w = Inr unch)" and
    ci: "install_cn_models s =
       cn_inst @ filter (\<lambda>x. of_char CHR ''/'' \<in> set x)
                   (str_split (download_ids (controlnet_models f)))" and
    cr: "remove_cn_models s = cn_rem" and
    c: "(case models_selected (controlnet_models f) of
        None \<Rightarrow> cn_inst = install_cn_models sel \<and> cn_rem = remove_cn_models sel
      | Some w \<Rightarrow> checked_not_installed (installed_cn_models f) w = Inr cn_inst \<and>
                  unchecked_installed (installed_cn_models f) w = Inr cn_rem)" and
    li: "install_lora_models s = lora_inst @ str_split (download_ids (lora_models f))" and
    lr: "remove_lora_models s = lora_rem" and
    l: "(case models_selected (lora_models f) of
        None \<Rightarrow> lora_inst = install_lora_models sel \<and> lora_rem = remove_lora_models sel
      | Some w \<Rightarrow> checked_not_installed (installed_lora_models f) w = Inr lora_inst \<and>
                  unchecked_installed (installed_lora_models f) w = Inr lora_rem)" and
    ti: "install_ti_models s = ti_inst @ str_split (download_ids (ti_models f))" and
    tr: "remove_ti_models s = ti_rem" and
    t: "(case models_selected (ti_models f) of
        None \<Rightarrow> ti_inst = install_ti_models sel \<and> ti_rem = remove_ti_models sel
      | Some w \<Rightarrow> checked_not_installed (installed_ti_models f) w = Inr ti_inst \<and>
                  unchecked_installed (installed_ti_models f) w = Inr ti_rem)"
    by blast
  have names: "set names \<subseteq> set (starter_model_list f)"
    using starter_models_dict_set[OF n] starter_checked_member by auto
  have unch: "set unch \<inter> set (starter_model_list f) = {}"
  proof (cases "models_selected (diffusers_models f)")
    case None
    then show ?thesis using u by simp
  next
    case (Some w)
    then have un: "unchecked_installed (installed_diffusers_models f) w = Inr unch"
      using u by simp
    have v: "ms_values w = sorted_py (keys (installed_diffusers_models f))"
      using assms(1) Some by (simp add: form_inv_def widget_inv_def)
    have "set unch \<subseteq> set (keys (installed_diffusers_models f))"
      using unchecked_installed_member(1)[OF un] by (auto simp: v set_sorted_py)
    then show ?thesis using assms(1) by (auto simp: form_inv_def)
  qed
  show "set (install_models s) \<inter> set (remove_models s) = {}"
    using i r names unch by auto
  have cn0: "set cn_inst \<inter> set cn_rem = {}"
  proof (cases "models_selected (controlnet_models f)")
    case None
    then show ?thesis using c assms(3) by simp
  next
    case (Some w)
    with c have a: "checked_not_installed (installed_cn_models f) w = Inr cn_inst"
      and b: "unchecked_installed (installed_cn_models f) w = Inr cn_rem" by simp_all
    from checked_unchecked_disjoint[OF a b] show ?thesis .
  qed
  show "set (install_cn_models s) \<inter> set (remove_cn_models s) = {}"
    if "set (str_split (download_ids (controlnet_models f))) \<inter> set (remove_cn_models s) = {}"
    using cn0 that by (auto simp: ci cr)
  have lora0: "set lora_inst \<inter> set lora_rem = {}"
  proof (cases "models_selected (lora_models f)")
    case None
    then show ?thesis using l assms(4) by simp
  next
    case (Some w)
    with l have a: "checked_not_installed (installed_lora_models f) w = Inr lora_inst"
      and b: "unchecked_installed (installed_lora_models f) w = Inr lora_rem" by simp_all
    from checked_unchecked_disjoint[OF a b] show ?thesis .
  qed
  show "set (install_lora_models s) \<inter> set (remove_lora_models s) = {}"
    if "set (str_split (download_ids (lora_models f))) \<inter> set (remove_lora_models s) = {}"
    using lora0 that by (auto simp: li lr)
  have ti0: "set ti_inst \<inter> set ti_rem = {}"
  proof (cases "models_selected (ti_models f)")
    case None
    then show ?thesis using t assms(5) by simp
  next
    case (Some w)
    with t have a: "checked_not_installed (installed_ti_models f) w = Inr ti_inst"
      and b: "unchecked_installed (installed_ti_models f) w = Inr ti_rem" by simp_all
    from checked_unchecked_disjoint[OF a b] show ?thesis .
  qed
  show "set (install_ti_models s) \<inter> set (remove_ti_models s) = {}"
    if "set (str_split (download_ids (ti_models f))) \<inter> set (remove_ti_models s) = {}"
    using ti0 that by (auto simp: ti tr)
qed

text \<open>
  Claim C3, as amended. On a well-formed form with valid checks, and a
  selections object that came with disjoint lists, \<^verbatim>\<open>marshall_arguments\<close>
  returns, and in what it returns: the install list and the remove list of the
  diffusers category have no name in common; and the two lists of each of the
  other three categories have no name in common, provided no free-text entry of
  the category is in its remove list.
\<close>

theorem install_remove_disjoint:
  assumes "form_inv f" and "valid_selection f"
    and "set (install_cn_models sel) \<inter> set (remove_cn_models sel) = {}"
    and "set (install_lora_models sel) \<inter> set (remove_lora_models sel) = {}"
    and "set (install_ti_models sel) \<inter> set (remove_ti_models sel) = {}"
  shows "\<exists>s. marshall_arguments f sel = Inr s \<and>
     set (install_models s) \<inter> set (remove_models s) = {} \<and>
     (set (str_split (download_ids (controlnet_models f))) \<inter> set (remove_cn_models s) = {}
        \<longrightarrow> set (install_cn_models s) \<inter> set (remove_cn_models s) = {}) \<and>
     (set (str_split (download_ids (lora_models f))) \<inter> set (remove_lora_models s) = {}
        \<longrightarrow> set (install_lora_models s) \<inter> set (remove_lora_models s) = {}) \<and>
     (set (str_split (download_ids (ti_models f))) \<inter> set (remove_ti_models s) = {}
        \<longrightarrow> set (install_ti_models s) \<inter> set (remove_ti_models s) = {})"
proof -
  from marshall_arguments_total[OF assms(1,2)] obtain s where
    s: "marshall_arguments f sel = Inr s" by blast
  from result_lists_disjoint[OF assms(1) s assms(3,4,5)] s show ?thesis by blast
qed

lemma valid_edited: "valid_selection edited_form"
  by (simp add: valid_selection_def valid_indices_def edited_form_def example_form_def lit_def)

theorem install_remove_disjoint_witness:
  "form_inv edited_form \<and> valid_selection edited_form \<and>
   marshall_arguments edited_form empty_selections = Inr edited_result \<and>
   set (str_split (download_ids (controlnet_models edited_form))) \<inter>
     set (remove_cn_models edited_result) = {} \<and>
   set (str_split (download_ids (lora_models edited_form))) \<inter>
     set (remove_lora_models edited_result) = {} \<and>
   set (str_split (download_ids (ti_models edited_form))) \<inter>
     set (remove_ti_models edited_result) = {} \<and>
   set (install_models edited_result) \<inter> set (remove_models edited_result) = {} \<and>
   set (install_cn_models edited_result) \<inter> set (remove_cn_models edited_result) = {} \<and>
   set (install_lora_models edited_result) \<inter> set (remove_lora_models edited_result) = {} \<and>
   set (install_ti_models edited_result) \<inter> set (remove_ti_models edited_result) = {}"
proof -
  have 1: "set (install_cn_models empty_selections) \<inter> set (remove_cn_models empty_selections) = {}"
    and 2: "set (install_lora_models empty_selections) \<inter> set (remove_lora_models empty_selections) = {}"
    and 3: "set (install_ti_models empty_selections) \<inter> set (remove_ti_models empty_selections) = {}"
    by (simp_all add: empty_selections_def)
  have 4: "set (str_split (download_ids (controlnet_models edited_form))) \<inter>
           set (remove_cn_models edited_result) = {}"
    and 5: "set (str_split (download_ids (lora_models edited_form))) \<inter>
           set (remove_lora_models edited_result) = {}"
    by (simp_all add: edited_result_def)
  have 6: "set (str_split (download_ids (ti_models edited_form))) \<inter>
           set (remove_ti_models edited_result) = {}"
    by (simp add: edited_result_def edited_form_def example_form_def str_split_def isspace_def lit_def)
  from install_remove_disjoint[OF form_inv_edited valid_edited 1 2 3]
  obtain s where s: "marshall_arguments edited_form empty_selections = Inr s"
    and d: "set (install_models s) \<inter> set (remove_models s) = {}"
    and c: "set (str_split (download_ids (controlnet_models edited_form))) \<inter>
              set (remove_cn_models s) = {}
            \<longrightarrow> set (install_cn_models s) \<inter> set (remove_cn_models s) = {}"
    and l: "set (str_split (download_ids (lora_models edited_form))) \<inter>
              set (remove_lora_models s) = {}
            \<longrightarrow> set (install_lora_models s) \<inter> set (remove_lora_models s) = {}"
    and t: "set (str_split (download_ids (ti_models edited_form))) \<inter>
              set (remove_ti_models s) = {}
            \<longrightarrow> set (install_ti_models s) \<inter> set (remove_ti_models s) = {}"
    by blast
  have e: "s = edited_result" using s marshall_edited by simp
  from d c l t 4 5 6 form_inv_edited valid_edited marshall_edited
  show ?thesis unfolding e by blast
qed

text \<open>
  Claim C3 as stated fails: with the installed ControlNet model unchecked and its
  name typed into the free-text box, the name is in both lists of the category.
  The checked indices (none) are valid.
\<close>

theorem install_remove_counterexample:
  "valid_selection retyped_form \<and>
   map_sum id (\<lambda>s. (install_cn_models s, remove_cn_models s))
     (marshall_arguments retyped_form empty_selections)
     = Inr ([lit ''lllyasviel/canny''], [lit ''lllyasviel/canny''])"
  by (simp add: marshall_arguments_def marshall_starter_def marshall_diffusers_def
      marshall_cn_def marshall_lora_def marshall_ti_def starter_models_dict_def
      unchecked_installed_def checked_not_installed_def getitem_def dict_getitem_def
      str_split_def isspace_def lit_def retyped_form_def example_form_def
      empty_selections_def valid_selection_def valid_indices_def Let_def)

section \<open>An unchanged selection\<close>

lemma selects_installed_nothing_to_do:
  assumes "selects_installed d (Some w)"
  shows "checked_not_installed d w = Inr inst \<Longrightarrow> inst = []"
    and "unchecked_installed d w = Inr rem \<Longrightarrow> rem = []"
proof -
  from assms have
    a: "\<And>i. i \<in> set (ms_value w) \<Longrightarrow> map_of d (ms_values w ! i) = Some True" and
    b: "\<And>i. i < length (ms_values w) \<Longrightarrow> map_of d (ms_values w ! i) = Some True
          \<Longrightarrow> i \<in> set (ms_value w)"
    by (auto simp: selects_installed_def list_all_iff)
  show "inst = []" if c: "checked_not_installed d w = Inr inst"
  proof -
    have False if "x \<in> set inst" for x
    proof -
      from checked_not_installed_member[OF c that] obtain i where
        "map_of d x = Some False" "i \<in> set (ms_value w)" "getitem (ms_values w) i = Inr x"
        by blast
      then show False using a[of i] by (simp add: getitem_Inr)
    qed
    then show ?thesis by (cases inst) auto
  qed
  show "rem = []" if u: "unchecked_installed d w = Inr rem"
  proof -
    have False if "x \<in> set rem" for x
    proof -
      from unchecked_installed_member[OF u that] obtain i where
        t: "map_of d x = Some True" and i: "list_index (ms_values w) x = Inr i"
        and n: "i \<notin> set (ms_value w)"
        by blast
      from list_index_sound[OF i] t have "i \<in> set (ms_value w)" using b[of i] by simp
      with n show False by simp
    qed
    then show ?thesis by (cases rem) auto
  qed
qed

lemma str_split_empty: "str_split [] = []"
  by (simp add: str_split_def)

text \<open>
  When the selection is unchanged, every list that \<^verbatim>\<open>marshall_arguments\<close>
  assigns is empty; the lists of a category without candidates are not assigned
  and keep what the selections object held.
\<close>

lemma unchanged_selection_assigned_lists:
  assumes "unchanged_selection f" and "marshall_arguments f sel = Inr s"
  shows "install_models s = [] \<and> remove_models s = [] \<and> import_model_paths s = [] \<and>
    (case models_selected (controlnet_models f) of
       None \<Rightarrow> install_cn_models s = install_cn_models sel \<and>
               remove_cn_models s = remove_cn_models sel
     | Some w \<Rightarrow> install_cn_models s = [] \<and> remove_cn_models s = []) \<and>
    (case models_selected (lora_models f) of
       None \<Rightarrow> install_lora_models s = install_lora_models sel \<and>
               remove_lora_models s = remove_lora_models sel
     | Some w \<Rightarrow> install_lora_models s = [] \<and> remove_lora_models s = []) \<and>
    (case models_selected (ti_models f) of
       None \<Rightarrow> install_ti_models s = install_ti_models sel \<and>
               remove_ti_models s = remove_ti_models sel
     | Some w \<Rightarrow> install_ti_models s = [] \<and> remove_ti_models s = [])"
proof -
  from marshall_arguments_fields[OF assms(2)]
  obtain names unch cn_inst cn_rem lora_inst lora_rem ti_inst ti_rem where
    n: "starter_models_dict f = Inr names" and
    i: "install_models s = filter (\<lambda>x. x \<notin> set (existing_models f)) names" and
    r: "remove_models s =
       filter (\<lambda>x. x \<in> set (existing_models f) \<and> x \<notin> set names) (starter_model_list f)
       @ unch" and
    u: "(case models_selected (diffusers_models f) of
        None \<Rightarrow> unch = []
      | Some w \<Rightarrow> unchecked_installed (installed_diffusers_models f) w = Inr unch)" and
    im: "import_model_paths s = str_split (download_ids (diffusers_models f))" and
    ci: "install_cn_models s =
       cn_inst @ filter (\<lambda>x. of_char CHR ''/'' \<in> set x)
                   (str_split (download_ids (controlnet_models f)))" and
    cr: "remove_cn_models s = cn_rem" and
    c: "(case models_selected (controlnet_models f) of
        None \<Rightarrow> cn_inst = install_cn_models sel \<and> cn_rem = remove_cn_models sel
      | Some w \<Rightarrow> checked_not_installed (installed_cn_models f) w = Inr cn_inst \<and>
                  unchecked_installed (installed_cn_models f) w = Inr cn_rem)" and
    li: "install_lora_models s = lora_inst @ str_split (download_ids (lora_models f))" and
    lr: "remove_lora_models s = lora_rem" and
    l: "(case models_selected (lora_models f) of
        None \<Rightarrow> lora_inst = install_lora_models sel \<and> lora_rem = remove_lora_models sel
      | Some w \<Rightarrow> checked_not_installed (installed_lora_models f) w = Inr lora_inst \<and>
                  unchecked_installed (installed_lora_models f) w = Inr lora_rem)" and
    ti: "install_ti_models s = ti_inst @ str_split (download_ids (ti_models f))" and
    tr: "remove_ti_models s = ti_rem" and
    t: "(case models_selected (ti_models f) of
        None \<Rightarrow> ti_inst = install_ti_models sel \<and> ti_rem = remove_ti_models sel
      | Some w \<Rightarrow> checked_not_installed (installed_ti_models f) w = Inr ti_inst \<and>
                  unchecked_installed (installed_ti_models f) w = Inr ti_rem)"
    by blast
  from assms(1) have
    st: "\<And>x. x \<in> set (starter_model_list f) \<Longrightarrow>
            starter_checked f x \<longleftrightarrow> x \<in> set (existing_models f)" and
    sd: "selects_installed (installed_diffusers_models f) (models_selected (diffusers_models f))" and
    sc: "selects_installed (installed_cn_models f) (models_selected (controlnet_models f))" and
    sl: "selects_installed (installed_lora_models f) (models_selected (lora_models f))" and
    sti: "selects_installed (installed_ti_models f) (models_selected (ti_models f))" and
    boxes: "download_ids (diffusers_models f) = []" "download_ids (controlnet_models f) = []"
         "download_ids (lora_models f) = []" "download_ids (ti_models f) = []"
    by (auto simp: unchanged_selection_def list_all_iff)
  note names = starter_models_dict_set[OF n]
  have i0: "install_models s = []"
    unfolding i filter_empty_conv using names st starter_checked_member by auto
  have u0: "unch = []"
  proof (cases "models_selected (diffusers_models f)")
    case None
    then show ?thesis using u by simp
  next
    case (Some w)
    with u sd show ?thesis using selects_installed_nothing_to_do(2)[of _ w unch] by simp
  qed
  have r0: "remove_models s = []"
    unfolding r u0 using names st by (auto simp: filter_empty_conv)
  have cn: "(case models_selected (controlnet_models f) of
       None \<Rightarrow> install_cn_models s = install_cn_models sel \<and>
               remove_cn_models s = remove_cn_models sel
     | Some w \<Rightarrow> install_cn_models s = [] \<and> remove_cn_models s = [])"
  proof (cases "models_selected (controlnet_models f)")
    case None
    then show ?thesis using c by (simp add: ci cr boxes str_split_empty)
  next
    case (Some w)
    with c sc have "cn_inst = []" "cn_rem = []"
      using selects_installed_nothing_to_do[of "installed_cn_models f" w] by simp_all
    then show ?thesis using Some by (simp add: ci cr boxes str_split_empty)
  qed
  have lora: "(case models_selected (lora_models f) of
       None \<Rightarrow> install_lora_models s = install_lora_models sel \<and>
               remove_lora_models s = remove_lora_models sel
     | Some w \<Rightarrow> install_lora_models s = [] \<and> remove_lora_models s = [])"
  proof (cases "models_selected (lora_models f)")
    case None
    then show ?thesis using l by (simp add: li lr boxes str_split_empty)
  next
    case (Some w)
    with l sl have "lora_inst = []" "lora_rem = []"
      using selects_installed_nothing_to_do[of "installed_lora_models f" w] by simp_all
    then show ?thesis using Some by (simp add: li lr boxes str_split_empty)
  qed
  have tiv: "(case models_selected (ti_models f) of
       None \<Rightarrow> install_ti_models s = install_ti_models sel \<and>
               remove_ti_models s = remove_ti_models sel
     | Some w \<Rightarrow> install_ti_models s = [] \<and> remove_ti_models s = [])"
  proof (cases "models_selected (ti_models f)")
    case None
    then show ?thesis using t by (simp add: ti tr boxes str_split_empty)
  next
    case (Some w)
    with t sti have "ti_inst = []" "ti_rem = []"
      using selects_installed_nothing_to_do[of "installed_ti_models f" w] by simp_all
    then show ?thesis using Some by (simp add: ti tr boxes str_split_empty)
  qed
  have im0: "import_model_paths s = []" by (simp add: im boxes str_split_empty)
  from i0 r0 im0 cn lora tiv show ?thesis by simp
qed

lemma unchanged_example: "unchanged_selection example_form"
  by (simp add: unchanged_selection_def selects_installed_def starter_checked_def
      getitem_def example_form_def lit_def)

lemma marshall_lora_typed:
  "marshall_arguments lora_typed_form empty_selections = Inr lora_typed_result"
  by (simp add: marshall_arguments_def marshall_starter_def marshall_diffusers_def
      marshall_cn_def marshall_lora_def marshall_ti_def starter_models_dict_def
      unchecked_installed_def checked_not_installed_def getitem_def dict_getitem_def
      str_split_def isspace_def lit_def lora_typed_form_def example_form_def empty_selections_def
      lora_typed_result_def Let_def)

text \<open>
  Claim C4 at the failing input. The LoRA tab has no candidate. A first call of
  \<^verbatim>\<open>marshall_arguments\<close>, with a name typed into the free-text box of that tab,
  leaves the name in the install list of the selections object. A second call on
  the same object, with the box empty again and every check on an installed model,
  still yields that install list, which is not empty.
\<close>

theorem unchanged_selection_keeps_old_entries:
  "marshall_arguments lora_typed_form empty_selections = Inr lora_typed_result \<and>
   unchanged_selection example_form \<and>
   map_sum id install_lora_models (marshall_arguments example_form lora_typed_result)
     = Inr [lit ''org/lora-a'']"
proof -
  have "map_sum id install_lora_models (marshall_arguments example_form lora_typed_result)
     = Inr [lit ''org/lora-a'']"
    by (simp add: marshall_arguments_def marshall_starter_def marshall_diffusers_def
      marshall_cn_def marshall_lora_def marshall_ti_def starter_models_dict_def
      unchecked_installed_def checked_not_installed_def getitem_def dict_getitem_def
      str_split_def isspace_def lit_def example_form_def empty_selections_def
      lora_typed_result_def Let_def)
  with marshall_lora_typed unchanged_example show ?thesis by simp
qed

section \<open>The purge flag\<close>

text \<open>
  Claim C5. The purge flag that \<^verbatim>\<open>marshall_arguments\<close> stores, and that
  \<^verbatim>\<open>process_and_execute\<close> passes to the installer, is the disjunction of the
  purge checkbox of the starter tab and the purge checkbox of the diffusers tab,
  the only two there are: one of them ticked is enough.
\<close>

theorem purge_deleted_is_or:
  assumes "marshall_arguments f sel = Inr s"
  shows "purge_deleted_models s =
           (starter_purge_deleted (starter_diffusers_models f) \<or>
            purge_deleted (diffusers_models f)) \<and>
         req_purge_deleted (build_request chosen_precision opt s) =
           (starter_purge_deleted (starter_diffusers_models f) \<or>
            purge_deleted (diffusers_models f))"
  using marshall_arguments_fields[OF assms] by (auto simp: build_request_def)

theorem purge_deleted_is_or_witness:
  "marshall_arguments edited_form empty_selections = Inr edited_result \<and>
   starter_purge_deleted (starter_diffusers_models edited_form) \<and>
   \<not> purge_deleted (diffusers_models edited_form) \<and>
   purge_deleted_models edited_result \<and>
   req_purge_deleted (build_request ''float16'' \<lparr>full_precision = False, config_file = None\<rparr>
     edited_result)"
  using purge_deleted_is_or[OF marshall_edited, of "''float16''"
      "\<lparr>full_precision = False, config_file = None\<rparr>"] marshall_edited
  by (simp add: edited_form_def example_form_def lit_def)

section \<open>The loop of \<^verbatim>\<open>while_waiting\<close>\<close>

lemma rebuild_form_eq:
  "rebuild_form self =
     \<lparr>subprocess_connection = None,
      monitor_values = monitor_values self @ [action_complete, []]\<rparr>"
  by (simp add: rebuild_form_def buffer_def Let_def)

lemma poll_loop_empty_open:
  "pending c = [] \<Longrightarrow> \<not> peer_closed c \<Longrightarrow> poll_loop wrap width c self evs = Some (self, evs)"
  by (subst poll_loop.simps) (simp add: poll_def)

lemma poll_loop_sentinel:
  "pending c = sentinel # rest \<Longrightarrow>
   poll_loop wrap width c self evs =
     Some (\<lparr>subprocess_connection = None,
            monitor_values = monitor_values self @ [action_complete, []]\<rparr>, evs @ [Completed])"
  by (subst poll_loop.simps) (simp add: poll_def recv_bytes_def rebuild_form_eq Let_def)

lemma poll_loop_text:
  "pending c = m # rest \<Longrightarrow> m \<noteq> sentinel \<Longrightarrow>
   poll_loop wrap width c self evs =
     poll_loop wrap width (c\<lparr>pending := rest\<rparr>)
       (self\<lparr>subprocess_connection :=
               map_option (\<lambda>_. c\<lparr>pending := rest\<rparr>) (subprocess_connection self),
             monitor_values := monitor_values self @ wrap width m\<rparr>)
       (evs @ [Text (wrap width m)])"
  by (subst poll_loop.simps) (simp add: poll_def recv_bytes_def buffer_def Let_def)

text \<open>
  The chunks before the sentinel are read one after the other; \<open>held\<close> says whether
  the attribute still holds the connection.
\<close>

lemma poll_loop_texts:
  assumes "sentinel \<notin> set msgs" and "pending c = msgs @ rest"
    and "subprocess_connection self = (if held then Some c else None)"
  shows "poll_loop wrap width c self evs =
     poll_loop wrap width (c\<lparr>pending := rest\<rparr>)
       (self\<lparr>subprocess_connection := (if held then Some (c\<lparr>pending := rest\<rparr>) else None),
             monitor_values := monitor_values self @ concat (map (wrap width) msgs)\<rparr>)
       (evs @ map (\<lambda>m. Text (wrap width m)) msgs)"
  using assms
proof (induction msgs arbitrary: c self evs)
  case Nil
  then have c: "c\<lparr>pending := rest\<rparr> = c" by simp
  have "self\<lparr>subprocess_connection := (if held then Some c else None),
             monitor_values := monitor_values self @ concat (map (wrap width) [])\<rparr> = self"
    using Nil.prems(3) by (cases held) simp_all
  then show ?case by (simp only: c list.map append_Nil2)
next
  case (Cons m msgs)
  let ?c = "c\<lparr>pending := msgs @ rest\<rparr>"
  let ?self = "self\<lparr>subprocess_connection :=
                       map_option (\<lambda>_. ?c) (subprocess_connection self),
                     monitor_values := monitor_values self @ wrap width m\<rparr>"
  have m: "m \<noteq> sentinel" and rest: "sentinel \<notin> set msgs" using Cons.prems(1) by auto
  have p: "pending c = m # (msgs @ rest)" using Cons.prems(2) by simp
  have step: "poll_loop wrap width c self evs =
      poll_loop wrap width ?c ?self (evs @ [Text (wrap width m)])"
    by (rule poll_loop_text[OF p m])
  have held: "subprocess_connection ?self = (if held then Some ?c else None)"
    using Cons.prems(3) by simp
  have "poll_loop wrap width ?c ?self (evs @ [Text (wrap width m)]) =
     poll_loop wrap width (?c\<lparr>pending := rest\<rparr>)
       (?self\<lparr>subprocess_connection := (if held then Some (?c\<lparr>pending := rest\<rparr>) else None),
             monitor_values := monitor_values ?self @ concat (map (wrap width) msgs)\<rparr>)
       ((evs @ [Text (wrap width m)]) @ map (\<lambda>m. Text (wrap width m)) msgs)"
    by (rule Cons.IH[OF rest _ held]) simp
  with step show ?case by simp
qed

text \<open>
  At the end of the file the loop does not end: \<^verbatim>\<open>poll()\<close> stays true,
  \<^verbatim>\<open>recv_bytes()\<close> raises again, and the handler, which only clears the
  attribute, has no \<^verbatim>\<open>break\<close>.
\<close>

lemma poll_loop_eof_never:
  assumes "poll_loop wrap width c self evs = Some r"
  shows "\<not> (pending c = [] \<and> peer_closed c)"
proof (rule poll_loop.raw_induct
    [where P = "\<lambda>wrap width c self evs r. \<not> (pending c = [] \<and> peer_closed c)", OF _ assms])
  fix loop :: "(nat \<Rightarrow> string \<Rightarrow> string list) \<Rightarrow> nat \<Rightarrow> Connection \<Rightarrow> waiting_form
     \<Rightarrow> LogEvent list \<Rightarrow> (waiting_form \<times> LogEvent list) option"
  fix wrap width c self evs r
  assume IH: "\<And>wrap width c self evs r. loop wrap width c self evs = Some r \<Longrightarrow>
                \<not> (pending c = [] \<and> peer_closed c)"
  assume body: "(if poll c then
        (case recv_bytes c of
           None \<Rightarrow> None
         | Some (Inr data, c') \<Rightarrow>
             (let self1 = self\<lparr>subprocess_connection :=
                                 map_option (\<lambda>_. c') (subprocess_connection self)\<rparr>;
                  stripped = strip_newlines data
              in if data = sentinel then
                   Some (rebuild_form (self1\<lparr>subprocess_connection := None\<rparr>),
                         evs @ [Completed])
                 else
                   loop wrap width c'
                     (self1\<lparr>monitor_values := buffer (wrap width data) (monitor_values self1)\<rparr>)
                     (evs @ [Text (wrap width data)]))
         | Some (Inl err, c') \<Rightarrow>
             loop wrap width c' (self\<lparr>subprocess_connection := None\<rparr>) evs)
      else Some (self, evs)) = Some r"
  show "\<not> (pending c = [] \<and> peer_closed c)"
  proof
    assume h: "pending c = [] \<and> peer_closed c"
    then have "loop wrap width c (self\<lparr>subprocess_connection := None\<rparr>) evs = Some r"
      using body by (simp add: poll_def recv_bytes_def)
    from IH[OF this] h show False by simp
  qed
qed

lemma poll_loop_eof:
  "pending c = [] \<Longrightarrow> peer_closed c \<Longrightarrow> poll_loop wrap width c self evs = None"
  using poll_loop_eof_never[of wrap width c self evs]
  by (cases "poll_loop wrap width c self evs") auto

section \<open>One call of \<^verbatim>\<open>while_waiting\<close>\<close>

lemma while_waiting_no_connection:
  "subprocess_connection self = None \<Longrightarrow> while_waiting wrap width self = Some (self, [])"
  by (simp add: while_waiting_def)

lemma while_waiting_drains:
  assumes "subprocess_connection self = Some c" and "\<not> peer_closed c"
    and "sentinel \<notin> set (pending c)"
  shows "while_waiting wrap width self =
     Some (self\<lparr>subprocess_connection := Some (c\<lparr>pending := []\<rparr>),
                monitor_values :=
                  monitor_values self @ concat (map (wrap width) (pending c))\<rparr>,
           map (\<lambda>m. Text (wrap width m)) (pending c))"
proof -
  have "poll_loop wrap width c self [] =
     poll_loop wrap width (c\<lparr>pending := []\<rparr>)
       (self\<lparr>subprocess_connection := (if True then Some (c\<lparr>pending := []\<rparr>) else None),
             monitor_values := monitor_values self @ concat (map (wrap width) (pending c))\<rparr>)
       ([] @ map (\<lambda>m. Text (wrap width m)) (pending c))"
    by (rule poll_loop_texts[OF assms(3)]) (simp_all add: assms(1))
  also have "\<dots> = Some (self\<lparr>subprocess_connection := Some (c\<lparr>pending := []\<rparr>),
                monitor_values :=
                  monitor_values self @ concat (map (wrap width) (pending c))\<rparr>,
           map (\<lambda>m. Text (wrap width m)) (pending c))"
    using assms(2) by (simp add: poll_loop_empty_open)
  finally show ?thesis by (simp add: while_waiting_def assms(1))
qed

lemma while_waiting_completes:
  assumes "subprocess_connection self = Some c" and "pending c = msgs @ sentinel # rest"
    and "sentinel \<notin> set msgs"
  shows "while_waiting wrap width self =
     Some (\<lparr>subprocess_connection = None,
            monitor_values =
              (monitor_values self @ concat (map (wrap width) msgs)) @ [action_complete, []]\<rparr>,
           map (\<lambda>m. Text (wrap width m)) msgs @ [Completed])"
proof -
  have "poll_loop wrap width c self [] =
     poll_loop wrap width (c\<lparr>pending := sentinel # rest\<rparr>)
       (self\<lparr>subprocess_connection :=
               (if True then Some (c\<lparr>pending := sentinel # rest\<rparr>) else None),
             monitor_values := monitor_values self @ concat (map (wrap width) msgs)\<rparr>)
       ([] @ map (\<lambda>m. Text (wrap width m)) msgs)"
    by (rule poll_loop_texts[OF assms(3)]) (simp_all add: assms(1,2))
  also have "\<dots> = Some (\<lparr>subprocess_connection = None,
            monitor_values =
              (monitor_values self @ concat (map (wrap width) msgs)) @ [action_complete, []]\<rparr>,
           map (\<lambda>m. Text (wrap width m)) msgs @ [Completed])"
    by (subst poll_loop_sentinel[where rest = rest]) simp_all
  finally show ?thesis by (simp add: while_waiting_def assms(1))
qed

lemma while_waiting_eof:
  assumes "subprocess_connection self = Some c" and "peer_closed c"
    and "sentinel \<notin> set (pending c)"
  shows "while_waiting wrap width self = None"
proof -
  have "poll_loop wrap width c self [] =
     poll_loop wrap width (c\<lparr>pending := []\<rparr>)
       (self\<lparr>subprocess_connection := (if True then Some (c\<lparr>pending := []\<rparr>) else None),
             monitor_values := monitor_values self @ concat (map (wrap width) (pending c))\<rparr>)
       ([] @ map (\<lambda>m. Text (wrap width m)) (pending c))"
    by (rule poll_loop_texts[OF assms(3)]) (simp_all add: assms(1))
  also have "\<dots> = None"
    using assms(2) by (simp add: poll_loop_eof)
  finally show ?thesis by (simp add: while_waiting_def assms(1))
qed

section \<open>Runs of the form beside the subprocess\<close>

text \<open>Without a connection nothing that the subprocess or the timer does has an effect.\<close>

lemma run_no_connection:
  "subprocess_connection self = None \<Longrightarrow> run wrap width steps (self, evs) = Some (self, evs)"
proof (induction steps)
  case Nil
  then show ?case by simp
next
  case (Cons st steps)
  have same: "self\<lparr>subprocess_connection := None\<rparr> = self"
    using Cons.prems by simp
  show ?case
    using Cons by (cases st) (simp_all add: while_waiting_no_connection same)
qed

lemma reading_on_execute:
  "reading wrap width (monitor_values self @ [''Processing...'']) [] (on_execute self, [])"
  by (simp add: reading_def on_execute_def buffer_def)

lemma reading_ticks:
  assumes "reading wrap width M E st"
  shows "\<exists>st'. reading wrap width M E st' \<and>
           run wrap width (replicate n Tick @ steps) st = run wrap width steps st'"
  using assms
proof (induction n arbitrary: st)
  case 0
  then show ?case by (intro exI[of _ st]) simp
next
  case (Suc n)
  obtain self evs where st: "st = (self, evs)" by (cases st)
  from Suc.prems obtain c where c: "subprocess_connection self = Some c"
    and o: "\<not> peer_closed c" and s: "sentinel \<notin> set (pending c)"
    and M: "monitor_values self @ concat (map (wrap width) (pending c)) = M"
    and E: "evs @ map (\<lambda>m. Text (wrap width m)) (pending c) = E"
    by (auto simp: reading_def st split: option.splits)
  let ?self = "self\<lparr>subprocess_connection := Some (c\<lparr>pending := []\<rparr>),
                monitor_values :=
                  monitor_values self @ concat (map (wrap width) (pending c))\<rparr>"
  let ?st = "(?self, evs @ map (\<lambda>m. Text (wrap width m)) (pending c))"
  have r: "reading wrap width M E ?st"
    using o M E by (simp add: reading_def)
  have "run wrap width (replicate (Suc n) Tick @ steps) st =
        run wrap width (replicate n Tick @ steps) ?st"
    by (simp add: st while_waiting_drains[OF c o s])
  with Suc.IH[OF r] show ?case by auto
qed

lemma reading_send:
  assumes "reading wrap width M E st" and "m \<noteq> sentinel"
  shows "\<exists>st'. reading wrap width (M @ wrap width m) (E @ [Text (wrap width m)]) st' \<and>
           run wrap width (Send m # steps) st = run wrap width steps st'"
proof -
  obtain self evs where st: "st = (self, evs)" by (cases st)
  from assms(1) obtain c where c: "subprocess_connection self = Some c"
    and o: "\<not> peer_closed c" and s: "sentinel \<notin> set (pending c)"
    and M: "monitor_values self @ concat (map (wrap width) (pending c)) = M"
    and E: "evs @ map (\<lambda>m. Text (wrap width m)) (pending c) = E"
    by (auto simp: reading_def st split: option.splits)
  let ?st = "(self\<lparr>subprocess_connection :=
                      map_option (send_bytes m) (subprocess_connection self)\<rparr>, evs)"
  have "reading wrap width (M @ wrap width m) (E @ [Text (wrap width m)]) ?st"
    using c o s M E assms(2) by (auto simp: reading_def send_bytes_def)
  moreover have "run wrap width (Send m # steps) st = run wrap width steps ?st"
    by (simp add: st)
  ultimately show ?thesis by blast
qed

lemma reading_send_sentinel:
  assumes "reading wrap width M E st"
  shows "\<exists>st'. finishing wrap width M E st' \<and>
           run wrap width (Send sentinel # steps) st = run wrap width steps st'"
proof -
  obtain self evs where st: "st = (self, evs)" by (cases st)
  from assms(1) obtain c where c: "subprocess_connection self = Some c"
    and s: "sentinel \<notin> set (pending c)"
    and M: "monitor_values self @ concat (map (wrap width) (pending c)) = M"
    and E: "evs @ map (\<lambda>m. Text (wrap width m)) (pending c) = E"
    by (auto simp: reading_def st split: option.splits)
  let ?st = "(self\<lparr>subprocess_connection :=
                      map_option (send_bytes sentinel) (subprocess_connection self)\<rparr>, evs)"
  have "pending (send_bytes sentinel c) = pending c @ sentinel # []"
    by (simp add: send_bytes_def)
  then have "finishing wrap width M E ?st"
    using c s M E unfolding finishing_def by (simp only: fst_conv snd_conv) auto
  moreover have "run wrap width (Send sentinel # steps) st = run wrap width steps ?st"
    by (simp add: st)
  ultimately show ?thesis by blast
qed

lemma finishing_run:
  assumes "finishing wrap width M E st" and "Tick \<in> set steps"
  shows "run wrap width steps st =
     Some (\<lparr>subprocess_connection = None, monitor_values = M @ [action_complete, []]\<rparr>,
           E @ [Completed])"
  using assms
proof (induction steps arbitrary: st)
  case Nil
  then show ?case by simp
next
  case (Cons x steps)
  obtain self evs where st: "st = (self, evs)" by (cases st)
  from Cons.prems(1) obtain c msgs rest where c: "subprocess_connection self = Some c"
    and p: "pending c = msgs @ sentinel # rest" and s: "sentinel \<notin> set msgs"
    and M: "monitor_values self @ concat (map (wrap width) msgs) = M"
    and E: "evs @ map (\<lambda>m. Text (wrap width m)) msgs = E"
    by (auto simp: finishing_def st split: option.splits)
  show ?case
  proof (cases x)
    case (Send m)
    let ?st = "(self\<lparr>subprocess_connection :=
                        map_option (send_bytes m) (subprocess_connection self)\<rparr>, evs)"
    have "pending (send_bytes m c) = msgs @ sentinel # (rest @ [m])"
      by (simp add: send_bytes_def p)
    then have f: "finishing wrap width M E ?st"
      using c s M E unfolding finishing_def by (simp only: fst_conv snd_conv) auto
    have t: "Tick \<in> set steps" using Cons.prems(2) Send by simp
    show ?thesis using Cons.IH[OF f t] by (simp add: st Send)
  next
    case CloseEnd
    let ?st = "(self\<lparr>subprocess_connection :=
                        map_option close_peer (subprocess_connection self)\<rparr>, evs)"
    have "pending (close_peer c) = msgs @ sentinel # rest"
      by (simp add: close_peer_def p)
    then have f: "finishing wrap width M E ?st"
      using c s M E unfolding finishing_def by (simp only: fst_conv snd_conv) auto
    have t: "Tick \<in> set steps" using Cons.prems(2) CloseEnd by simp
    show ?thesis using Cons.IH[OF f t] by (simp add: st CloseEnd)
  next
    case Tick
    show ?thesis
      using M E
      by (simp add: st Tick while_waiting_completes[OF c p s] run_no_connection)
  qed
qed

section \<open>Streaming\<close>

text \<open>
  Claim C6. The form has started the subprocess (\<^verbatim>\<open>on_execute\<close>). The subprocess
  sends two chunks \<open>a\<close> and \<open>b\<close>, neither of them the sentinel, and then the
  sentinel; the timer calls \<^verbatim>\<open>while_waiting\<close> any number of times before,
  between and after these, and at least once after the sentinel was sent
  (\<open>later\<close> is whatever happens after it: more calls, more messages, the end closed).
  Every call returns, and all the calls together show: \<open>a\<close>, wrapped to the width of
  the log window; then \<open>b\<close>, wrapped; then the completion, once; and nothing after
  it. The form is left without connection.
\<close>

theorem streaming_two_chunks_then_sentinel:
  assumes "a \<noteq> sentinel" and "b \<noteq> sentinel" and "Tick \<in> set later"
  shows "run wrap width
           (replicate i Tick @ Send a # replicate j Tick @ Send b # replicate k Tick @
            Send sentinel # later)
           (on_execute self, []) =
         Some (\<lparr>subprocess_connection = None,
                monitor_values =
                  monitor_values self @ [''Processing...''] @ wrap width a @ wrap width b @
                  [action_complete, []]\<rparr>,
               [Text (wrap width a), Text (wrap width b), Completed])"
proof -
  let ?M = "monitor_values self @ [''Processing...'']"
  let ?A = "Text (wrap width a)" and ?B = "Text (wrap width b)"
  let ?R3 = "Send sentinel # later"
  let ?R2 = "Send b # replicate k Tick @ ?R3"
  let ?R1 = "Send a # replicate j Tick @ ?R2"
  from reading_ticks[OF reading_on_execute, where n = i and steps = ?R1]
  obtain s1 where s1: "reading wrap width ?M [] s1"
    and r1: "run wrap width (replicate i Tick @ ?R1) (on_execute self, []) =
             run wrap width ?R1 s1"
    by blast
  from reading_send[OF s1 assms(1), where steps = "replicate j Tick @ ?R2"]
  obtain s2 where s2: "reading wrap width (?M @ wrap width a) ([] @ [?A]) s2"
    and r2: "run wrap width ?R1 s1 = run wrap width (replicate j Tick @ ?R2) s2"
    by blast
  from reading_ticks[OF s2, where n = j and steps = ?R2]
  obtain s3 where s3: "reading wrap width (?M @ wrap width a) ([] @ [?A]) s3"
    and r3: "run wrap width (replicate j Tick @ ?R2) s2 = run wrap width ?R2 s3"
    by blast
  from reading_send[OF s3 assms(2), where steps = "replicate k Tick @ ?R3"]
  obtain s4 where
    s4: "reading wrap width ((?M @ wrap width a) @ wrap width b) (([] @ [?A]) @ [?B]) s4"
    and r4: "run wrap width ?R2 s3 = run wrap width (replicate k Tick @ ?R3) s4"
    by blast
  from reading_ticks[OF s4, where n = k and steps = ?R3]
  obtain s5 where
    s5: "reading wrap width ((?M @ wrap width a) @ wrap width b) (([] @ [?A]) @ [?B]) s5"
    and r5: "run wrap width (replicate k Tick @ ?R3) s4 = run wrap width ?R3 s5"
    by blast
  from reading_send_sentinel[OF s5, where steps = later]
  obtain s6 where
    s6: "finishing wrap width ((?M @ wrap width a) @ wrap width b) (([] @ [?A]) @ [?B]) s6"
    and r6: "run wrap width ?R3 s5 = run wrap width later s6"
    by blast
  have "run wrap width (replicate i Tick @ ?R1) (on_execute self, []) = run wrap width later s6"
    by (simp only: r1 r2 r3 r4 r5 r6)
  also have "\<dots> = Some (\<lparr>subprocess_connection = None,
                monitor_values =
                  ((?M @ wrap width a) @ wrap width b) @ [action_complete, []]\<rparr>,
               (([] @ [?A]) @ [?B]) @ [Completed])"
    by (rule finishing_run[OF s6 assms(3)])
  finally show ?thesis by simp
qed

theorem streaming_two_chunks_then_sentinel_witness:
  "''Fetching model X'' \<noteq> sentinel \<and> ''Fetching model Y'' \<noteq> sentinel \<and>
   Tick \<in> set [CloseEnd, Tick, Tick] \<and>
   run (\<lambda>w s. [s]) 80
     [Send ''Fetching model X'', Tick, Send ''Fetching model Y'', Tick, Send sentinel,
      CloseEnd, Tick, Tick]
     (on_execute \<lparr>subprocess_connection = None, monitor_values = []\<rparr>, []) =
   Some (\<lparr>subprocess_connection = None,
          monitor_values = [''Processing...'', ''Fetching model X'', ''Fetching model Y'',
                            action_complete, []]\<rparr>,
         [Text [''Fetching model X''], Text [''Fetching model Y''], Completed])"
proof -
  have a: "''Fetching model X'' \<noteq> sentinel" and b: "''Fetching model Y'' \<noteq> sentinel"
    by (simp_all add: sentinel_def)
  have t: "Tick \<in> set [CloseEnd, Tick, Tick]" by simp
  from streaming_two_chunks_then_sentinel[OF a b t, where wrap = "\<lambda>w s. [s]" and width = 80
      and i = 0 and j = "Suc 0" and k = "Suc 0"
      and self = "\<lparr>subprocess_connection = None, monitor_values = []\<rparr>"] a b
  show ?thesis by simp
qed

section \<open>The subprocess ends without the sentinel\<close>

text \<open>
  Claim C7 at the failing input. The subprocess sends one chunk and ends without
  the sentinel, so its end of the pipe is closed. A call of \<^verbatim>\<open>while_waiting\<close>
  made before the end shows the chunk and returns. The next call meets the end of
  the file and never returns: the run has no result.
\<close>

theorem end_of_file_never_returns:
  "run wrap width [Send ''Fetching model X'', Tick] (on_execute self, []) =
     Some (\<lparr>subprocess_connection = Some \<lparr>pending = [], peer_closed = False\<rparr>,
            monitor_values =
              monitor_values self @ [''Processing...''] @ wrap width ''Fetching model X''\<rparr>,
           [Text (wrap width ''Fetching model X'')]) \<and>
   run wrap width [Send ''Fetching model X'', Tick, CloseEnd, Tick] (on_execute self, []) = None"
proof -
  let ?c = "\<lparr>pending = [''Fetching model X''], peer_closed = False\<rparr>"
  let ?s0 = "\<lparr>subprocess_connection = Some ?c,
              monitor_values = monitor_values self @ [''Processing...'']\<rparr>"
  have x: "sentinel \<notin> set (pending ?c)" by (simp add: sentinel_def)
  have w1: "while_waiting wrap width ?s0 =
     Some (\<lparr>subprocess_connection = Some \<lparr>pending = [], peer_closed = False\<rparr>,
            monitor_values =
              monitor_values self @ [''Processing...''] @ wrap width ''Fetching model X''\<rparr>,
           [Text (wrap width ''Fetching model X'')])"
    using while_waiting_drains[of ?s0 ?c wrap width] x by simp
  let ?d = "\<lparr>pending = [], peer_closed = True\<rparr>"
  let ?s1 = "\<lparr>subprocess_connection = Some ?d,
            monitor_values =
              monitor_values self @ [''Processing...''] @ wrap width ''Fetching model X''\<rparr>"
  have w2: "while_waiting wrap width ?s1 = None"
    using while_waiting_eof[of ?s1 ?d wrap width] by simp
  have s0: "on_execute self\<lparr>subprocess_connection :=
              map_option (send_bytes ''Fetching model X'')
                (subprocess_connection (on_execute self))\<rparr> = ?s0"
    by (simp add: on_execute_def send_bytes_def buffer_def)
  show ?thesis
    using w1 w2 by (simp add: s0 close_peer_def)
qed

section \<open>The sentinel of the subprocess\<close>

text \<open>
  Claim C8, as amended. With a connection, when the installer returns,
  \<^verbatim>\<open>process_and_execute\<close> sends the sentinel and then closes the connection,
  each once, as its last two actions, after the redirected output of the
  installer. When the installer raises, the exception leaves the function: it
  sends no sentinel and does not close the connection; only the output of the
  installer has been sent.
\<close>

theorem sentinel_when_installer_returns:
  assumes "process_and_execute install_requested_models chosen_precision opt selections True
             = (ops, returned)"
  shows "returned = (\<not> raises (install_requested_models
                                 (build_request chosen_precision opt selections))) \<and>
         (returned \<longrightarrow>
            ops = map SendBytes (written (install_requested_models
                    (build_request chosen_precision opt selections)))
                  @ [SendBytes sentinel, Close]) \<and>
         (\<not> returned \<longrightarrow>
            ops = map SendBytes (written (install_requested_models
                    (build_request chosen_precision opt selections))) \<and>
            Close \<notin> set ops)"
  using assms by (auto simp: process_and_execute_def Let_def split: if_splits)

theorem sentinel_when_installer_returns_witness:
  "process_and_execute (\<lambda>r. \<lparr>written = [''Fetching model X''], raises = False\<rparr>) ''float16''
     \<lparr>full_precision = False, config_file = None\<rparr> empty_selections True
   = ([SendBytes ''Fetching model X'', SendBytes sentinel, Close], True)"
proof -
  have e: "process_and_execute (\<lambda>r. \<lparr>written = [''Fetching model X''], raises = False\<rparr>)
     ''float16'' \<lparr>full_precision = False, config_file = None\<rparr> empty_selections True
   = ([SendBytes ''Fetching model X'', SendBytes sentinel, Close], True)"
    by (simp add: process_and_execute_def Let_def)
  from sentinel_when_installer_returns[OF e] e show ?thesis by simp
qed

text \<open>
  Claim C8 as stated fails: when the installer raises after one line of output,
  the line is all that the subprocess sends; there is no sentinel and no close.
\<close>

theorem sentinel_counterexample:
  "process_and_execute (\<lambda>r. \<lparr>written = [''Fetching model X''], raises = True\<rparr>) ''float16''
     \<lparr>full_precision = False, config_file = None\<rparr> empty_selections True
   = ([SendBytes ''Fetching model X''], False)"
  by (simp add: process_and_execute_def Let_def)

section \<open>The log window after completion\<close>

text \<open>
  Claim C9, as amended. When a call of \<^verbatim>\<open>while_waiting\<close> receives the sentinel,
  after the chunks \<open>msgs\<close> that were waiting before it, the log window of the
  rebuilt form holds the lines of the log window as they were just before the
  sentinel was received (the old lines and the wrapped chunks, in order, none
  dropped), then the line \<^verbatim>\<open>** Action Complete **\<close>, then one empty line.
\<close>

theorem scrollback_after_completion:
  assumes "subprocess_connection self = Some c" and "pending c = msgs @ sentinel # rest"
    and "sentinel \<notin> set msgs"
  shows "\<exists>self'. while_waiting wrap width self =
                   Some (self', map (\<lambda>m. Text (wrap width m)) msgs @ [Completed]) \<and>
           monitor_values self' =
             (monitor_values self @ concat (map (wrap width) msgs)) @
             [''** Action Complete **'', '''']"
  using while_waiting_completes[OF assms] by (simp add: action_complete_def)

theorem scrollback_after_completion_witness:
  "subprocess_connection
     \<lparr>subprocess_connection = Some \<lparr>pending = [''Fetching model X'', sentinel], peer_closed = True\<rparr>,
      monitor_values = [''Processing...'']\<rparr>
     = Some \<lparr>pending = [''Fetching model X'', sentinel], peer_closed = True\<rparr> \<and>
   sentinel \<notin> set [''Fetching model X''] \<and>
   (\<exists>self'. while_waiting (\<lambda>w s. [s]) 80
       \<lparr>subprocess_connection = Some \<lparr>pending = [''Fetching model X'', sentinel], peer_closed = True\<rparr>,
        monitor_values = [''Processing...'']\<rparr>
       = Some (self', [Text [''Fetching model X''], Completed]) \<and>
     monitor_values self' =
       [''Processing...'', ''Fetching model X'', ''** Action Complete **'', ''''])"
proof -
  let ?c = "\<lparr>pending = [''Fetching model X'', sentinel], peer_closed = True\<rparr>"
  let ?self = "\<lparr>subprocess_connection = Some ?c, monitor_values = [''Processing...'']\<rparr>"
  have 1: "subprocess_connection ?self = Some ?c" by simp
  have 2: "pending ?c = [''Fetching model X''] @ sentinel # []" by simp
  have 3: "sentinel \<notin> set [''Fetching model X'']" by (simp add: sentinel_def)
  from scrollback_after_completion[OF 1 2 3, of "\<lambda>w s. [s]" 80] 3
  show ?thesis by simp
qed

text \<open>
  Claim C9 as stated fails: the rebuilt log window is not the old lines followed
  by the marker line only, an empty line follows the marker.
\<close>

theorem scrollback_counterexample:
  "map_option (\<lambda>r. monitor_values (fst r))
     (while_waiting (\<lambda>w s. [s]) 80
        \<lparr>subprocess_connection = Some \<lparr>pending = [''*done*''], peer_closed = False\<rparr>,
         monitor_values = [''Processing...'']\<rparr>)
   = Some [''Processing...'', ''** Action Complete **'', ''''] \<and>
   [''Processing...'', ''** Action Complete **'', ''''] \<noteq>
   [''Processing...''] @ [''** Action Complete **'']"
proof -
  let ?c = "\<lparr>pending = [''*done*''], peer_closed = False\<rparr>"
  let ?self = "\<lparr>subprocess_connection = Some ?c, monitor_values = [''Processing...'']\<rparr>"
  have "while_waiting (\<lambda>w s. [s]) 80 ?self =
     Some (\<lparr>subprocess_connection = None,
            monitor_values = ([''Processing...''] @ concat (map ((\<lambda>w s. [s]) 80) [])) @
                             [action_complete, []]\<rparr>,
           map (\<lambda>m. Text ((\<lambda>w s. [s]) 80 m)) [] @ [Completed])"
    using while_waiting_completes[of ?self ?c "[]" "[]" "\<lambda>w s. [s]" 80]
    by (simp add: sentinel_def)
  then show ?thesis by (simp add: action_complete_def)
qed

section \<open>Recognising the sentinel\<close>

text \<open>
  Claim C10. A chunk is taken for the sentinel exactly when it is the string
  \<^verbatim>\<open>*done*\<close>, character for character: a call of \<^verbatim>\<open>while_waiting\<close> that finds
  the single chunk \<open>d\<close> waiting completes when \<open>d\<close> is that string, and otherwise
  writes \<open>d\<close> to the log window as text and keeps the connection. The result of
  stripping the newlines is not used: \<^verbatim>\<open>*done*\<close> followed by a newline strips
  to the sentinel, is not equal to it, and so is text.
\<close>

theorem sentinel_exact_match:
  assumes "subprocess_connection self = Some c" and "pending c = [d]" and "\<not> peer_closed c"
  shows "while_waiting wrap width self =
           (if d = ''*done*'' then
              Some (\<lparr>subprocess_connection = None,
                     monitor_values = monitor_values self @ [action_complete, []]\<rparr>,
                    [Completed])
            else
              Some (self\<lparr>subprocess_connection := Some (c\<lparr>pending := []\<rparr>),
                         monitor_values := monitor_values self @ wrap width d\<rparr>,
                    [Text (wrap width d)])) \<and>
         strip_newlines (''*done*'' @ [CHR 0x0A]) = ''*done*'' \<and>
         ''*done*'' @ [CHR 0x0A] \<noteq> ''*done*''"
proof (cases "d = ''*done*''")
  case True
  then have p: "pending c = [] @ sentinel # []" using assms(2) by (simp add: sentinel_def)
  from while_waiting_completes[OF assms(1) p, of wrap width] True
  show ?thesis by (simp add: strip_newlines_def)
next
  case False
  then have s: "sentinel \<notin> set (pending c)" using assms(2) by (simp add: sentinel_def)
  from while_waiting_drains[OF assms(1) assms(3) s, of wrap width] False assms(2)
  show ?thesis by (simp add: strip_newlines_def)
qed

theorem sentinel_exact_match_witness:
  "while_waiting (\<lambda>w s. [s]) 80
     \<lparr>subprocess_connection = Some \<lparr>pending = [''*done*'' @ [CHR 0x0A]], peer_closed = False\<rparr>,
      monitor_values = []\<rparr>
   = Some (\<lparr>subprocess_connection = Some \<lparr>pending = [], peer_closed = False\<rparr>,
            monitor_values = [''*done*'' @ [CHR 0x0A]]\<rparr>,
           [Text [''*done*'' @ [CHR 0x0A]]]) \<and>
   while_waiting (\<lambda>w s. [s]) 80
     \<lparr>subprocess_connection = Some \<lparr>pending = [''*done*''], peer_closed = False\<rparr>,
      monitor_values = []\<rparr>
   = Some (\<lparr>subprocess_connection = None, monitor_values = [action_complete, []]\<rparr>,
           [Completed])"
proof -
  let ?c = "\<lparr>pending = [''*done*'' @ [CHR 0x0A]], peer_closed = False\<rparr>"
  let ?self = "\<lparr>subprocess_connection = Some ?c, monitor_values = []\<rparr>"
  let ?c' = "\<lparr>pending = [''*done*''], peer_closed = False\<rparr>"
  let ?self' = "\<lparr>subprocess_connection = Some ?c', monitor_values = []\<rparr>"
  from sentinel_exact_match[of ?self ?c "''*done*'' @ [CHR 0x0A]" "\<lambda>w s. [s]" 80]
    sentinel_exact_match[of ?self' ?c' "''*done*''" "\<lambda>w s. [s]" 80]
  show ?thesis by simp
qed

end
